theory Spec2Isabelle
  imports Complex_Main
begin

section \<open>Errors\<close>

text \<open>
  Every exception the modelled code can raise is a value of this type. The names are the
  error kinds of the specification; a shape failure of the tensor library (the operands of
  \<open>nd.dot\<close> or of a broadcasting operator do not fit) is reported as
  \<open>ShapeMismatchError\<close>, and \<open>AttributeError\<close> is Python's, for a method the
  object does not have.
\<close>

datatype error =
    ShapeUndefinedError
  | ShapeMismatchError
  | UninitializedError
  | GradientNotTrackedError
  | KeyNotFoundError
  | NameCollisionError
  | AttributeError

section \<open>The tensor library (\<open>mxnet.nd\<close>)\<close>

text \<open>
  Modelled from the spec: the tensor library (element-wise arithmetic, matrix multiply,
  reduction to the mean, zero-fill, context-aware allocation) is an external collaborator
  that the notebook calls; it is missing from the sources.
  An array is its shape, its elements in row-major order and the context it lives on.
  Elements are real numbers: rounding of the 32-bit floats is not modelled.
\<close>

datatype mx_context = cpu nat | gpu nat

record ndarray =
  nd_shape :: "nat list"
  nd_data :: "real list"
  nd_context :: mx_context

definition valid_ndarray :: "ndarray \<Rightarrow> bool" where
  "valid_ndarray a \<longleftrightarrow>
     nd_shape a \<noteq> [] \<and> 0 \<notin> set (nd_shape a) \<and> length (nd_data a) = prod_list (nd_shape a)"

text \<open>\<open>nd.ones(shape=...)\<close> and \<open>nd.array([...])\<close> of a flat list.\<close>

definition nd_ones :: "nat list \<Rightarrow> mx_context \<Rightarrow> ndarray" where
  "nd_ones shp c = \<lparr>nd_shape = shp, nd_data = replicate (prod_list shp) 1, nd_context = c\<rparr>"

definition nd_array :: "real list \<Rightarrow> mx_context \<Rightarrow> ndarray" where
  "nd_array xs c = \<lparr>nd_shape = [length xs], nd_data = xs, nd_context = c\<rparr>"

text \<open>\<open>nd.mean(x)\<close>: the mean over all elements, as an array of shape \<open>(1,)\<close>.\<close>

definition nd_mean :: "ndarray \<Rightarrow> ndarray" where
  "nd_mean a =
     \<lparr>nd_shape = [1],
      nd_data = [sum_list (nd_data a) / real (length (nd_data a))],
      nd_context = nd_context a\<rparr>"

text \<open>
  Broadcasting of two shapes, aligned at the last axis (the lists are the reversed shapes):
  two extents fit when they are equal or one of them is 1; the shorter shape is padded
  with leading axes.
\<close>

fun broadcast_shape_rev :: "nat list \<Rightarrow> nat list \<Rightarrow> nat list option" where
  "broadcast_shape_rev [] ys = Some ys"
| "broadcast_shape_rev (x # xs) [] = Some (x # xs)"
| "broadcast_shape_rev (x # xs) (y # ys) =
     (if x = y \<or> y = 1 then map_option ((#) x) (broadcast_shape_rev xs ys)
      else if x = 1 then map_option ((#) y) (broadcast_shape_rev xs ys)
      else None)"

text \<open>
  The coordinates of a flat row-major index, last axis first; and the flat index of such
  coordinates in an operand, where an axis of extent 1 is read at coordinate 0 and the
  axes the operand does not have are dropped.
\<close>

fun unravel_rev :: "nat list \<Rightarrow> nat \<Rightarrow> nat list" where
  "unravel_rev [] i = []"
| "unravel_rev (d # ds) i = (i mod d) # unravel_rev ds (i div d)"

fun ravel_rev :: "nat list \<Rightarrow> nat list \<Rightarrow> nat" where
  "ravel_rev (d # ds) (c # cs) = (if d = 1 then 0 else c) + d * ravel_rev ds cs"
| "ravel_rev [] cs = 0"
| "ravel_rev ds [] = 0"

definition broadcast_index :: "nat list \<Rightarrow> nat list \<Rightarrow> nat \<Rightarrow> nat" where
  "broadcast_index src out i = ravel_rev (rev src) (unravel_rev (rev out) i)"

text \<open>
  \<open>a + b\<close> and \<open>a - b\<close> of two arrays: the elementwise operation after
  broadcasting; the shapes not fitting is the library's shape error.
\<close>

definition broadcast_op :: "(real \<Rightarrow> real \<Rightarrow> real) \<Rightarrow> ndarray \<Rightarrow> ndarray \<Rightarrow> error + ndarray" where
  "broadcast_op f a b =
     (case broadcast_shape_rev (rev (nd_shape a)) (rev (nd_shape b)) of
        None \<Rightarrow> Inl ShapeMismatchError
      | Some ro \<Rightarrow>
          Inr \<lparr>nd_shape = rev ro,
               nd_data = map (\<lambda>i. f (nd_data a ! broadcast_index (nd_shape a) (rev ro) i)
                                     (nd_data b ! broadcast_index (nd_shape b) (rev ro) i))
                             [0..<prod_list (rev ro)],
               nd_context = nd_context a\<rparr>)"

definition broadcast_add :: "ndarray \<Rightarrow> ndarray \<Rightarrow> error + ndarray" where
  "broadcast_add = broadcast_op (+)"

definition broadcast_sub :: "ndarray \<Rightarrow> ndarray \<Rightarrow> error + ndarray" where
  "broadcast_sub = broadcast_op (-)"

text \<open>
  \<open>nd.dot(a, b)\<close>: the sum product over the last axis of \<open>a\<close> and the first axis of
  \<open>b\<close>. The result has the axes of \<open>a\<close> but the last, then the axes of \<open>b\<close> but the
  first (shape \<open>(1,)\<close> for two vectors); the two contracted extents differing is the
  library's shape error.
\<close>

definition nd_dot :: "ndarray \<Rightarrow> ndarray \<Rightarrow> error + ndarray" where
  "nd_dot a b =
     (if nd_shape a = [] \<or> nd_shape b = [] then Inl ShapeMismatchError
      else if last (nd_shape a) \<noteq> hd (nd_shape b) then Inl ShapeMismatchError
      else
        (let k = last (nd_shape a);
             rows = prod_list (butlast (nd_shape a));
             cols = prod_list (tl (nd_shape b));
             oshape = butlast (nd_shape a) @ tl (nd_shape b)
         in Inr \<lparr>nd_shape = (if oshape = [] then [1] else oshape),
                 nd_data = concat (map (\<lambda>r. map (\<lambda>j.
                     (\<Sum>i\<leftarrow>[0..<k]. nd_data a ! (r * k + i) * nd_data b ! (i * cols + j)))
                     [0..<cols]) [0..<rows]),
                 nd_context = nd_context a\<rparr>))"

text \<open>\<open>nd.maximum(X, c)\<close> with a scalar \<open>c\<close>: the elementwise maximum.\<close>

definition nd_maximum :: "ndarray \<Rightarrow> real \<Rightarrow> ndarray" where
  "nd_maximum a c = a\<lparr>nd_data := map (\<lambda>v. max v c) (nd_data a)\<rparr>"

section \<open>The activation of the notebook\<close>

text \<open>\<^verbatim>\<open>def relu(X): return nd.maximum(X, 0)\<close>\<close>

definition relu :: "ndarray \<Rightarrow> ndarray" where
  "relu X = nd_maximum X 0"

section \<open>Parameters (\<open>gluon.Parameter\<close>)\<close>

text \<open>
  Modelled from the spec: the class \<open>gluon.Parameter\<close> (the spec's NamedTensorHandle)
  belongs to the framework and is missing from the sources; the notebook only calls it.
  A handle has a name, an optional shape, a gradient-tracking flag and per-context storage,
  empty until initialised. A shape is known when it is set and all its extents are
  positive; the extent 0 stands for "infer from the first input".
  An initialiser gives, for a shape and a context, the value at every flat index of the
  tensor it fills; theorems hold for every initialiser, so a random scheme is covered.
\<close>

type_synonym initializer = "nat list \<Rightarrow> mx_context \<Rightarrow> nat \<Rightarrow> real"

record parameter =
  name :: string
  shape :: "nat list option"
  grad_req :: bool
  init :: "initializer option"
  storage :: "mx_context \<rightharpoonup> ndarray"
  grad_storage :: "mx_context \<rightharpoonup> ndarray"

text \<open>
  Modelled from the spec: Construct(name, shape optional, gradient-tracking flag, context
  set) gives a handle with no allocated storage. The contexts are those of the
  \<open>initialize\<close> calls, as in the notebook, whose call of the constructor is
  \<^verbatim>\<open>gluon.Parameter("exciting_parameter_yay", grad_req='write', shape=(5,5))\<close>.
\<close>

definition Parameter :: "string \<Rightarrow> bool \<Rightarrow> nat list option \<Rightarrow> initializer option \<Rightarrow> parameter" where
  "Parameter n g shp ini =
     \<lparr>name = n, shape = shp, grad_req = g, init = ini,
      storage = Map.empty, grad_storage = Map.empty\<rparr>"

definition shape_known :: "nat list option \<Rightarrow> bool" where
  "shape_known shp = (case shp of None \<Rightarrow> False | Some ds \<Rightarrow> 0 \<notin> set ds)"

definition allocate :: "initializer \<Rightarrow> nat list \<Rightarrow> mx_context \<Rightarrow> ndarray" where
  "allocate f ds c =
     \<lparr>nd_shape = ds, nd_data = map (f ds c) [0..<prod_list ds], nd_context = c\<rparr>"

definition nd_zeros :: "nat list \<Rightarrow> mx_context \<Rightarrow> ndarray" where
  "nd_zeros ds c = \<lparr>nd_shape = ds, nd_data = replicate (prod_list ds) 0, nd_context = c\<rparr>"

text \<open>
  Modelled from the spec: Initialize(initializer-function, contexts). For each requested
  context, if storage is absent, allocate a tensor of the handle's shape (failing with
  ShapeUndefinedError if the shape is still unknown) and fill it using the initialiser; if
  gradient tracking is enabled, also allocate a same-shaped gradient accumulator of zeros.
  Re-initialising an initialised handle for a context is a no-op unless forced.
\<close>

definition initialize_ctx :: "initializer \<Rightarrow> bool \<Rightarrow> parameter \<Rightarrow> mx_context \<Rightarrow> error + parameter" where
  "initialize_ctx f force_reinit p c =
     (if storage p c \<noteq> None \<and> \<not> force_reinit then Inr p
      else
        (case shape p of
           None \<Rightarrow> Inl ShapeUndefinedError
         | Some ds \<Rightarrow>
             if \<not> shape_known (Some ds) then Inl ShapeUndefinedError
             else
               Inr (p\<lparr>storage := (storage p)(c \<mapsto> allocate f ds c),
                      grad_storage :=
                        (if grad_req p then (grad_storage p)(c \<mapsto> nd_zeros ds c)
                         else grad_storage p)\<rparr>)))"

fun initialize_ctxs :: "initializer \<Rightarrow> bool \<Rightarrow> mx_context list \<Rightarrow> parameter \<Rightarrow> error + parameter" where
  "initialize_ctxs f force_reinit [] p = Inr p"
| "initialize_ctxs f force_reinit (c # cs) p =
     (case initialize_ctx f force_reinit p c of
        Inl e \<Rightarrow> Inl e
      | Inr p' \<Rightarrow> initialize_ctxs f force_reinit cs p')"

text \<open>
  The spec leaves open which initialiser fills the tensor when several are at hand. As in
  the framework, it is the one given in the call; without one, the handle's own (the
  \<open>init=\<close> of its creation); without that, the default of the registry's pass.
\<close>

definition initialize :: "initializer option \<Rightarrow> mx_context list \<Rightarrow> initializer \<Rightarrow> bool \<Rightarrow> parameter \<Rightarrow> error + parameter" where
  "initialize ini ctxs default_init force_reinit p =
     initialize_ctxs
       (case ini of Some f \<Rightarrow> f
        | None \<Rightarrow> (case init p of Some g \<Rightarrow> g | None \<Rightarrow> default_init))
       force_reinit ctxs p"

text \<open>
  Modelled from the spec: Data(context) returns the storage tensor for that context and
  fails with UninitializedError if absent; Gradient(context) returns the gradient
  accumulator and fails with GradientNotTrackedError if gradient tracking is disabled.
\<close>

definition Parameter_data :: "parameter \<Rightarrow> mx_context \<Rightarrow> error + ndarray" where
  "Parameter_data p c = (case storage p c of None \<Rightarrow> Inl UninitializedError | Some t \<Rightarrow> Inr t)"

definition Parameter_grad :: "parameter \<Rightarrow> mx_context \<Rightarrow> error + ndarray" where
  "Parameter_grad p c =
     (if \<not> grad_req p then Inl GradientNotTrackedError
      else (case grad_storage p c of None \<Rightarrow> Inl UninitializedError | Some g \<Rightarrow> Inr g))"

text \<open>
  A history of one handle: the \<open>initialize\<close> calls made on it, each with its arguments
  (initialiser, contexts, default initialiser, force flag). A call that raises leaves the
  handle as it was.
\<close>

type_synonym init_call = "initializer option \<times> mx_context list \<times> initializer \<times> bool"

fun initialize_calls :: "init_call list \<Rightarrow> parameter \<Rightarrow> parameter" where
  "initialize_calls [] p = p"
| "initialize_calls ((ini, cs, d, force_reinit) # calls) p =
     (case initialize ini cs d force_reinit p of
        Inl e \<Rightarrow> initialize_calls calls p
      | Inr p' \<Rightarrow> initialize_calls calls p')"

section \<open>Parameter dictionaries (\<open>gluon.ParameterDict\<close>)\<close>

text \<open>
  Handles are objects: a block and its dictionary hold the same handle, and initialising
  it through one is seen through the other. The store holds the handles; a reference is
  the handle's position in the store.
\<close>

type_synonym store = "parameter list"

text \<open>
  Modelled from the spec: the class \<open>gluon.ParameterDict\<close> (the spec's
  ParameterRegistry) is missing from the sources. A registry has a prefix and a mapping
  from names to handles, in insertion order. The mapping is kept under the
  fully-qualified name \<open>prefix @ local_name\<close>, the key that Lookup, Keys and Merge
  work on: the local name \<open>n\<close> is present when \<open>prefix @ n\<close> is a key.
\<close>

record parameterdict =
  prefix :: string
  params :: "(string \<times> nat) list"

definition ParameterDict :: "string \<Rightarrow> parameterdict" where
  "ParameterDict pfx = \<lparr>prefix = pfx, params = []\<rparr>"

text \<open>
  Modelled from the spec: Get(local_name, shape optional, initializer optional,
  gradient-tracking) returns the existing handle if local_name is already present (the
  shape, if both are specified, must match or this fails with ShapeMismatchError);
  otherwise it creates and registers a new handle with fully-qualified name
  \<open>prefix @ local_name\<close>.
\<close>

definition get :: "parameterdict \<Rightarrow> string \<Rightarrow> bool \<Rightarrow> initializer option \<Rightarrow> nat list option \<Rightarrow> store
    \<Rightarrow> error + (nat \<times> parameterdict \<times> store)" where
  "get d local_name g ini shp s =
     (case map_of (params d) (prefix d @ local_name) of
        Some r \<Rightarrow>
          (case (shape (s ! r), shp) of
             (Some old, Some new) \<Rightarrow>
               if old = new then Inr (r, d, s) else Inl ShapeMismatchError
           | _ \<Rightarrow> Inr (r, d, s))
      | None \<Rightarrow>
          Inr (length s,
               d\<lparr>params := params d @ [(prefix d @ local_name, length s)]\<rparr>,
               s @ [Parameter (prefix d @ local_name) g shp ini]))"

text \<open>
  Modelled from the spec: Lookup by fully-qualified name returns the handle or fails with
  KeyNotFoundError; Keys() gives the fully-qualified names in insertion order.
\<close>

definition lookup :: "parameterdict \<Rightarrow> string \<Rightarrow> error + nat" where
  "lookup d k = (case map_of (params d) k of None \<Rightarrow> Inl KeyNotFoundError | Some r \<Rightarrow> Inr r)"

definition keys :: "parameterdict \<Rightarrow> string list" where
  "keys d = map fst (params d)"

text \<open>
  Modelled from the spec: Merge(other registry) adds the other registry's handles and
  fails with NameCollisionError if the two registries define the same fully-qualified
  name.
\<close>

fun update_params :: "(string \<times> nat) list \<Rightarrow> (string \<times> nat) list \<Rightarrow> error + (string \<times> nat) list" where
  "update_params acc [] = Inr acc"
| "update_params acc ((k, r) # rest) =
     (if k \<in> set (map fst acc) then Inl NameCollisionError
      else update_params (acc @ [(k, r)]) rest)"

definition update :: "parameterdict \<Rightarrow> parameterdict \<Rightarrow> error + parameterdict" where
  "update d other =
     (case update_params (params d) (params other) of
        Inl e \<Rightarrow> Inl e
      | Inr ps \<Rightarrow> Inr (d\<lparr>params := ps\<rparr>))"

text \<open>
  Modelled from the spec: \<open>ParameterDict.initialize\<close> calls Initialize on every handle of
  the registry, in order, with no initialiser of the call's own. A handle that raises ends
  the pass; the handles initialised before it stay initialised.
\<close>

fun initialize_params :: "initializer \<Rightarrow> mx_context list \<Rightarrow> (string \<times> nat) list \<Rightarrow> store \<Rightarrow> error option \<times> store" where
  "initialize_params f cs [] s = (None, s)"
| "initialize_params f cs ((k, r) # rest) s =
     (case initialize None cs f False (s ! r) of
        Inl e \<Rightarrow> (Some e, s)
      | Inr p \<Rightarrow> initialize_params f cs rest (s[r := p]))"

definition ParameterDict_initialize :: "parameterdict \<Rightarrow> initializer \<Rightarrow> mx_context list \<Rightarrow> store \<Rightarrow> error option \<times> store" where
  "ParameterDict_initialize d f cs s = initialize_params f cs (params d) s"

section \<open>Blocks\<close>

text \<open>
  A block owns a parameter dictionary, made by the constructor of \<open>Block\<close> from the
  block's prefix. The prefix is an argument here (the \<open>prefix=\<close> keyword of
  \<open>Block\<close>); the framework's automatic numbering of unnamed blocks is not modelled.
  \<open>MyDense\<close> keeps its two handles besides; \<open>nn.Sequential\<close> keeps its children in
  the order of the \<open>add\<close> calls.
\<close>

record mydense =
  units :: nat
  in_units :: nat
  md_params :: parameterdict
  weight :: nat
  bias :: nat

datatype block =
    CenteredLayer parameterdict
  | MyDense mydense
  | Sequential parameterdict "block list"

text \<open>
  \<^verbatim>\<open>
  class CenteredLayer(Block):
      def __init__(self, **kwargs):
          super(CenteredLayer, self).__init__(**kwargs)
      def forward(self, x):
          return x - nd.mean(x)
  \<close>
\<close>

definition CenteredLayer_init :: "string \<Rightarrow> block" where
  "CenteredLayer_init pfx = CenteredLayer (ParameterDict pfx)"

definition CenteredLayer_forward :: "ndarray \<Rightarrow> error + ndarray" where
  "CenteredLayer_forward x = broadcast_sub x (nd_mean x)"

text \<open>
  \<^verbatim>\<open>
  def __init__(self, units, in_units=0, **kwargs):
      super(MyDense, self).__init__(**kwargs)
      with self.name_scope():
          self.units = units
          self._in_units = in_units
          self.weight = self.params.get(
              'weight', init=mx.init.Xavier(magnitude=2.24),
              shape=(in_units, units))
          self.bias = self.params.get('bias', shape=(units,))
  \<close>
  The initialiser \<open>mx.init.Xavier(magnitude=2.24)\<close> is an argument; gradient tracking
  is the default of \<open>get\<close>, on.
\<close>

definition MyDense_init :: "string \<Rightarrow> nat \<Rightarrow> nat \<Rightarrow> initializer \<Rightarrow> store \<Rightarrow> error + (mydense \<times> store)" where
  "MyDense_init pfx n_units n_in xavier s =
     (case get (ParameterDict pfx) ''weight'' True (Some xavier) (Some [n_in, n_units]) s of
        Inl e \<Rightarrow> Inl e
      | Inr (w, d1, s1) \<Rightarrow>
          (case get d1 ''bias'' True None (Some [n_units]) s1 of
             Inl e \<Rightarrow> Inl e
           | Inr (b, d2, s2) \<Rightarrow>
               Inr (\<lparr>units = n_units, in_units = n_in, md_params = d2, weight = w, bias = b\<rparr>,
                    s2)))"

text \<open>
  \<^verbatim>\<open>
  def forward(self, x):
      with x.context:
          linear = nd.dot(x, self.weight.data()) + self.bias.data()
          activation = relu(linear)
          return activation
  \<close>
  Within \<open>with x.context\<close> the active context is that of \<open>x\<close>, so \<open>data()\<close> reads
  the storage for it.
\<close>

definition MyDense_forward :: "store \<Rightarrow> mydense \<Rightarrow> ndarray \<Rightarrow> error + ndarray" where
  "MyDense_forward s m x =
     (case Parameter_data (s ! weight m) (nd_context x) of
        Inl e \<Rightarrow> Inl e
      | Inr w \<Rightarrow>
          (case nd_dot x w of
             Inl e \<Rightarrow> Inl e
           | Inr xw \<Rightarrow>
               (case Parameter_data (s ! bias m) (nd_context x) of
                  Inl e \<Rightarrow> Inl e
                | Inr b \<Rightarrow>
                    (case broadcast_add xw b of
                       Inl e \<Rightarrow> Inl e
                     | Inr lin \<Rightarrow> Inr (relu lin)))))"

text \<open>
  Modelled from the spec: a composite module keeps an ordered sequence of child modules.
  \<open>nn.Sequential()\<close> and \<open>net.add(block)\<close> are the framework's; calling a block runs
  its \<open>forward\<close>, and that of \<open>nn.Sequential\<close> feeds the input through the children
  in order. The blocks of the notebook have no method \<open>add\<close>.
\<close>

definition Sequential_init :: "string \<Rightarrow> block" where
  "Sequential_init pfx = Sequential (ParameterDict pfx) []"

fun add :: "block \<Rightarrow> block \<Rightarrow> error + block" where
  "add (Sequential d cs) b = Inr (Sequential d (cs @ [b]))"
| "add (CenteredLayer d) b = Inl AttributeError"
| "add (MyDense m) b = Inl AttributeError"

fun forward :: "store \<Rightarrow> block \<Rightarrow> ndarray \<Rightarrow> error + ndarray"
  and forward_children :: "store \<Rightarrow> block list \<Rightarrow> ndarray \<Rightarrow> error + ndarray" where
  "forward s (CenteredLayer d) x = CenteredLayer_forward x"
| "forward s (MyDense m) x = MyDense_forward s m x"
| "forward s (Sequential d cs) x = forward_children s cs x"
| "forward_children s [] x = Inr x"
| "forward_children s (c # cs) x =
     (case forward s c x of
        Inl e \<Rightarrow> Inl e
      | Inr y \<Rightarrow> forward_children s cs y)"

text \<open>The dictionary of a block (\<open>block.params\<close>) and its children.\<close>

fun block_params :: "block \<Rightarrow> parameterdict" where
  "block_params (CenteredLayer d) = d"
| "block_params (MyDense m) = md_params m"
| "block_params (Sequential d cs) = d"

fun children :: "block \<Rightarrow> block list" where
  "children (CenteredLayer d) = []"
| "children (MyDense m) = []"
| "children (Sequential d cs) = cs"

text \<open>
  Modelled from the spec: CollectParameters() is the aggregated registry, computed by
  merging the block's own registry with each child's CollectParameters() result;
  \<open>collect_params().initialize(...)\<close> (the spec's InitializeAll) calls Initialize on every
  handle of it.
\<close>

fun collect_params :: "block \<Rightarrow> error + parameterdict"
  and collect_children :: "parameterdict \<Rightarrow> block list \<Rightarrow> error + parameterdict" where
  "collect_params (CenteredLayer d) = update (ParameterDict (prefix d)) d"
| "collect_params (MyDense m) = update (ParameterDict (prefix (md_params m))) (md_params m)"
| "collect_params (Sequential d cs) =
     (case update (ParameterDict (prefix d)) d of
        Inl e \<Rightarrow> Inl e
      | Inr ret \<Rightarrow> collect_children ret cs)"
| "collect_children ret [] = Inr ret"
| "collect_children ret (c # cs) =
     (case collect_params c of
        Inl e \<Rightarrow> Inl e
      | Inr d \<Rightarrow>
          (case update ret d of
             Inl e \<Rightarrow> Inl e
           | Inr ret' \<Rightarrow> collect_children ret' cs))"

definition initialize_all :: "block \<Rightarrow> initializer \<Rightarrow> mx_context list \<Rightarrow> store \<Rightarrow> error option \<times> store" where
  "initialize_all b f cs s =
     (case collect_params b of
        Inl e \<Rightarrow> (Some e, s)
      | Inr d \<Rightarrow> ParameterDict_initialize d f cs s)"

text \<open>
  The first example of the notebook, on a store \<open>s\<close>; \<open>ctx = mx.cpu()\<close>, and
  \<open>nd.ones\<close> makes its array on the default context, the same.
  \<^verbatim>\<open>
  dense = MyDense(20, in_units=10)
  dense.collect_params().initialize(ctx=ctx)
  dense(nd.ones(shape=(2,10)))
  \<close>
\<close>

definition dense_example :: "initializer \<Rightarrow> initializer \<Rightarrow> store \<Rightarrow> error + ndarray" where
  "dense_example xavier default_init s =
     (case MyDense_init ''mydense0_'' 20 10 xavier s of
        Inl e \<Rightarrow> Inl e
      | Inr (dense, s1) \<Rightarrow>
          (case initialize_all (MyDense dense) default_init [cpu 0] s1 of
             (Some e, s2) \<Rightarrow> Inl e
           | (None, s2) \<Rightarrow> forward s2 (MyDense dense) (nd_ones [2, 10] (cpu 0))))"

text \<open>
  The network of the notebook. Inside \<open>net.name_scope()\<close> the prefix of a child is the
  prefix of \<open>net\<close> followed by the child's own, which the framework numbers in order.
  \<^verbatim>\<open>
  net = gluon.nn.Sequential()
  with net.name_scope():
      net.add(MyDense(128, in_units=784))
      net.add(MyDense(64, in_units=128))
      net.add(MyDense(10, in_units=64))
  \<close>
\<close>

definition build_net :: "string \<Rightarrow> initializer \<Rightarrow> store \<Rightarrow> error + (block \<times> store)" where
  "build_net pfx xavier s =
     (case MyDense_init (pfx @ ''mydense0_'') 128 784 xavier s of
        Inl e \<Rightarrow> Inl e
      | Inr (l1, s1) \<Rightarrow>
     (case add (Sequential_init pfx) (MyDense l1) of
        Inl e \<Rightarrow> Inl e
      | Inr net1 \<Rightarrow>
     (case MyDense_init (pfx @ ''mydense1_'') 64 128 xavier s1 of
        Inl e \<Rightarrow> Inl e
      | Inr (l2, s2) \<Rightarrow>
     (case add net1 (MyDense l2) of
        Inl e \<Rightarrow> Inl e
      | Inr net2 \<Rightarrow>
     (case MyDense_init (pfx @ ''mydense2_'') 10 64 xavier s2 of
        Inl e \<Rightarrow> Inl e
      | Inr (l3, s3) \<Rightarrow>
     (case add net2 (MyDense l3) of
        Inl e \<Rightarrow> Inl e
      | Inr net3 \<Rightarrow> Inr (net3, s3)))))))"

section \<open>The accuracy metric (\<open>mx.metric.Accuracy\<close>)\<close>

text \<open>
  Modelled from the spec: the accuracy metric accumulator is the framework's;
  \<open>update(labels, predictions)\<close> adds to two running counts, the hits and the
  instances, and \<open>get()\<close> gives their ratio (\<open>nan\<close>, here \<open>None\<close>, when no
  instance was counted). A prediction whose shape differs from the labels' is a score
  array, and the predicted label is the position of the first largest score along axis 1
  (an array with fewer than two axes has no axis 1, and the update raises); labels are
  compared after the cast to integers, and a different number of labels and predictions
  raises.
\<close>

record accuracy =
  sum_metric :: nat
  num_inst :: nat

definition Accuracy :: accuracy where
  "Accuracy = \<lparr>sum_metric = 0, num_inst = 0\<rparr>"

fun argmax_from :: "nat \<Rightarrow> real \<Rightarrow> nat \<Rightarrow> real list \<Rightarrow> nat" where
  "argmax_from best v i [] = best"
| "argmax_from best v i (x # xs) =
     (if v < x then argmax_from i x (Suc i) xs else argmax_from best v (Suc i) xs)"

definition argmax :: "real list \<Rightarrow> nat" where
  "argmax xs = (case xs of [] \<Rightarrow> 0 | x # rest \<Rightarrow> argmax_from 0 x 1 rest)"

definition argmax_axis1 :: "ndarray \<Rightarrow> nat list" where
  "argmax_axis1 a =
     (let d0 = nd_shape a ! 0; d1 = nd_shape a ! 1; inner = prod_list (drop 2 (nd_shape a))
      in concat (map (\<lambda>i0. map (\<lambda>j.
           argmax (map (\<lambda>i1. nd_data a ! ((i0 * d1 + i1) * inner + j)) [0..<d1]))
           [0..<inner]) [0..<d0]))"

definition astype_int :: "real \<Rightarrow> int" where
  "astype_int v = (if 0 \<le> v then \<lfloor>v\<rfloor> else \<lceil>v\<rceil>)"

definition hits :: "real list \<Rightarrow> real list \<Rightarrow> nat" where
  "hits pred_label label =
     length (filter (\<lambda>(p, l). astype_int p = astype_int l) (zip pred_label label))"

definition Accuracy_update :: "ndarray \<Rightarrow> ndarray \<Rightarrow> accuracy \<Rightarrow> error + accuracy" where
  "Accuracy_update label pred m =
     (if nd_shape pred \<noteq> nd_shape label \<and> length (nd_shape pred) < 2 then Inl ShapeMismatchError
      else
        (let pred_label = (if nd_shape pred \<noteq> nd_shape label then map real (argmax_axis1 pred)
                           else nd_data pred)
         in if length pred_label \<noteq> length (nd_data label) then Inl ShapeMismatchError
            else Inr \<lparr>sum_metric = sum_metric m + hits pred_label (nd_data label),
                      num_inst = num_inst m + length pred_label\<rparr>))"

definition Accuracy_get :: "accuracy \<Rightarrow> real option" where
  "Accuracy_get m =
     (if num_inst m = 0 then None else Some (real (sum_metric m) / real (num_inst m)))"

section \<open>Evaluation and the training loop\<close>

text \<open>\<open>a.as_in_context(ctx)\<close>, \<open>a.reshape((-1, n))\<close> and \<open>a.asscalar()\<close>.\<close>

definition as_in_context :: "ndarray \<Rightarrow> mx_context \<Rightarrow> ndarray" where
  "as_in_context a c = a\<lparr>nd_context := c\<rparr>"

definition reshape_rows :: "ndarray \<Rightarrow> nat \<Rightarrow> error + ndarray" where
  "reshape_rows a n =
     (if n = 0 \<or> prod_list (nd_shape a) mod n \<noteq> 0 then Inl ShapeMismatchError
      else Inr (a\<lparr>nd_shape := [prod_list (nd_shape a) div n, n]\<rparr>))"

definition asscalar :: "ndarray \<Rightarrow> real" where
  "asscalar a = nd_data a ! 0"

text \<open>
  \<^verbatim>\<open>
  metric = mx.metric.Accuracy()

  def evaluate_accuracy(data_iterator, net):
      numerator = 0.
      denominator = 0.
      for i, (data, label) in enumerate(data_iterator):
          with autograd.record():
              data = data.as_in_context(ctx).reshape((-1,784))
              label = label.as_in_context(ctx)
              label_one_hot = nd.one_hot(label, 10)
              output = net(data)
          metric.update([label], [output])
      return metric.get()[1]
  \<close>
  The global \<open>metric\<close> is the state the function reads and leaves; the global \<open>ctx\<close>
  is an argument. \<open>label_one_hot\<close>, \<open>numerator\<close> and \<open>denominator\<close> are never read.
  When a batch raises, the exception leaves the function, and the metric keeps the
  batches counted before it (\<open>update\<close> checks the shapes before it counts).
\<close>

type_synonym batch = "ndarray \<times> ndarray"

type_synonym net_fun = "ndarray \<Rightarrow> error + ndarray"

fun evaluate_batches :: "mx_context \<Rightarrow> net_fun \<Rightarrow> batch list \<Rightarrow> accuracy \<Rightarrow> error option \<times> accuracy" where
  "evaluate_batches ctx net [] metric = (None, metric)"
| "evaluate_batches ctx net ((data, label) # rest) metric =
     (case reshape_rows (as_in_context data ctx) 784 of
        Inl e \<Rightarrow> (Some e, metric)
      | Inr data' \<Rightarrow>
          (case net data' of
             Inl e \<Rightarrow> (Some e, metric)
           | Inr output \<Rightarrow>
               (case Accuracy_update (as_in_context label ctx) output metric of
                  Inl e \<Rightarrow> (Some e, metric)
                | Inr metric' \<Rightarrow> evaluate_batches ctx net rest metric')))"

definition evaluate_accuracy :: "mx_context \<Rightarrow> batch list \<Rightarrow> net_fun \<Rightarrow> accuracy \<Rightarrow> (error + real option) \<times> accuracy" where
  "evaluate_accuracy ctx data_iterator net metric =
     (case evaluate_batches ctx net data_iterator metric of
        (Some e, metric') \<Rightarrow> (Inl e, metric')
      | (None, metric') \<Rightarrow> (Inr (Accuracy_get metric'), metric'))"

text \<open>
  A sequence of calls of \<open>evaluate_accuracy\<close>, each with its arguments, on the one
  metric; the result is the list of what the calls return or raise. A call that raises
  does not end the sequence (the next cell of the notebook runs on the same metric).
\<close>

fun evaluate_calls :: "mx_context \<Rightarrow> (batch list \<times> net_fun) list \<Rightarrow> accuracy \<Rightarrow> (error + real option) list \<times> accuracy" where
  "evaluate_calls ctx [] metric = ([], metric)"
| "evaluate_calls ctx ((data_iterator, net) # calls) metric =
     (case evaluate_accuracy ctx data_iterator net metric of
        (v, metric') \<Rightarrow>
          (case evaluate_calls ctx calls metric' of
             (vs, metric'') \<Rightarrow> (v # vs, metric'')))"

text \<open>
  The loss function, automatic differentiation and the optimiser are the framework's:
  \<open>loss\<close> gives the per-example loss tensor, and \<open>backward_step\<close> stands for
  \<open>cross_entropy.backward()\<close> followed by \<open>trainer.step(data.shape[0])\<close>, which
  leave new values in the handles of the store.
\<close>

record externals =
  loss :: "ndarray \<Rightarrow> ndarray \<Rightarrow> ndarray"
  backward_step :: "block \<Rightarrow> store \<Rightarrow> ndarray \<Rightarrow> ndarray \<Rightarrow> nat \<Rightarrow> store"

text \<open>
  The body of the inner loop up to the optimiser step, for one batch: it gives the new
  store and \<open>nd.mean(cross_entropy).asscalar()\<close>.
  \<^verbatim>\<open>
  data = data.as_in_context(ctx).reshape((-1,784))
  label = label.as_in_context(ctx)
  with autograd.record():
      output = net(data)
      cross_entropy = loss(output, label)
      cross_entropy.backward()
  trainer.step(data.shape[0])
  \<close>
\<close>

definition train_batch :: "externals \<Rightarrow> mx_context \<Rightarrow> block \<Rightarrow> batch \<Rightarrow> store \<Rightarrow> error + (store \<times> real)" where
  "train_batch ext ctx net b s =
     (case b of (data, label) \<Rightarrow>
        (case reshape_rows (as_in_context data ctx) 784 of
           Inl e \<Rightarrow> Inl e
         | Inr data' \<Rightarrow>
             (let label' = as_in_context label ctx in
              (case forward s net data' of
                 Inl e \<Rightarrow> Inl e
               | Inr output \<Rightarrow>
                   (let cross_entropy = loss ext output label';
                        s' = backward_step ext net s data' label' (nd_shape data' ! 0)
                    in Inr (s', asscalar (nd_mean cross_entropy)))))))"

text \<open>
  The inner loop, \<open>i\<close> being the counter of \<open>enumerate\<close>:
  \<^verbatim>\<open>
  for i, (data, label) in enumerate(train_data):
      ...
      if i == 0:
          moving_loss = nd.mean(cross_entropy).asscalar()
      else:
          moving_loss = .99 * moving_loss + .01 * nd.mean(cross_entropy).asscalar()
  \<close>
\<close>

fun batch_loop :: "externals \<Rightarrow> mx_context \<Rightarrow> block \<Rightarrow> nat \<Rightarrow> batch list \<Rightarrow> store \<times> real \<Rightarrow> error + (store \<times> real)" where
  "batch_loop ext ctx net i [] (s, moving_loss) = Inr (s, moving_loss)"
| "batch_loop ext ctx net i (b # rest) (s, moving_loss) =
     (case train_batch ext ctx net b s of
        Inl e \<Rightarrow> Inl e
      | Inr (s', ce) \<Rightarrow>
          batch_loop ext ctx net (Suc i) rest
            (s', if i = 0 then ce else 0.99 * moving_loss + 0.01 * ce))"

text \<open>
  The outer loop. Each epoch iterates three times over a data loader: the training pass,
  then \<open>evaluate_accuracy(test_data, net)\<close> and \<open>evaluate_accuracy(train_data, net)\<close>;
  an element of the list is the batches these three iterations yield. The report is what
  the epoch prints: \<open>e\<close>, \<open>moving_loss\<close>, \<open>train_accuracy\<close>, \<open>test_accuracy\<close>.
  \<^verbatim>\<open>
  moving_loss = 0.
  for e in range(epochs):
      for i, (data, label) in enumerate(train_data):
          ...
      test_accuracy = evaluate_accuracy(test_data, net)
      train_accuracy = evaluate_accuracy(train_data, net)
      print("Epoch %s. Loss: %s, Train_acc %s, Test_acc %s" %
            (e, moving_loss, train_accuracy, test_accuracy))
  \<close>
\<close>

record epoch_iters =
  train_iter :: "batch list"
  test_eval_iter :: "batch list"
  train_eval_iter :: "batch list"

type_synonym report = "nat \<times> real \<times> real option \<times> real option"

fun training_loop :: "externals \<Rightarrow> mx_context \<Rightarrow> block \<Rightarrow> nat \<Rightarrow> epoch_iters list
    \<Rightarrow> store \<times> real \<times> accuracy \<Rightarrow> error + (report list \<times> store \<times> real \<times> accuracy)" where
  "training_loop ext ctx net e [] st = Inr ([], st)"
| "training_loop ext ctx net e (it # rest) (s, moving_loss, metric) =
     (case batch_loop ext ctx net 0 (train_iter it) (s, moving_loss) of
        Inl err \<Rightarrow> Inl err
      | Inr (s1, moving_loss1) \<Rightarrow>
          (case evaluate_accuracy ctx (test_eval_iter it) (forward s1 net) metric of
             (Inl err, metric1) \<Rightarrow> Inl err
           | (Inr test_accuracy, metric1) \<Rightarrow>
               (case evaluate_accuracy ctx (train_eval_iter it) (forward s1 net) metric1 of
                  (Inl err, metric2) \<Rightarrow> Inl err
                | (Inr train_accuracy, metric2) \<Rightarrow>
                    (case training_loop ext ctx net (Suc e) rest (s1, moving_loss1, metric2) of
                       Inl err \<Rightarrow> Inl err
                     | Inr (reports, final) \<Rightarrow>
                         Inr ((e, moving_loss1, train_accuracy, test_accuracy) # reports,
                              final)))))"

text \<open>
  The specification's side of the moving loss. The mean loss of a batch is the sum of
  the elements of \<open>loss(net(data), label)\<close> over their number. The trace of a training
  pass lists, for each batch in order (up to a batch that raises), the store the optimiser
  step leaves and the batch's mean loss under the store before the step.
\<close>

definition mean_loss :: "externals \<Rightarrow> ndarray \<Rightarrow> ndarray \<Rightarrow> real" where
  "mean_loss ext output label =
     sum_list (nd_data (loss ext output label)) / real (length (nd_data (loss ext output label)))"

definition mean_step :: "externals \<Rightarrow> mx_context \<Rightarrow> block \<Rightarrow> ndarray \<Rightarrow> ndarray \<Rightarrow> store \<Rightarrow> ndarray \<Rightarrow> store \<times> real" where
  "mean_step ext ctx net d label s output =
     (backward_step ext net s d (as_in_context label ctx) (nd_shape d ! 0),
      mean_loss ext output (as_in_context label ctx))"

fun pass_trace :: "externals \<Rightarrow> mx_context \<Rightarrow> block \<Rightarrow> batch list \<Rightarrow> store \<Rightarrow> (store \<times> real) list" where
  "pass_trace ext ctx net [] s = []"
| "pass_trace ext ctx net ((data, label) # rest) s =
     (case reshape_rows (as_in_context data ctx) 784 of
        Inl e \<Rightarrow> []
      | Inr d \<Rightarrow>
          (case forward s net d of
             Inl e \<Rightarrow> []
           | Inr output \<Rightarrow>
               (mean_step ext ctx net d label s output)
               # pass_trace ext ctx net rest (fst (mean_step ext ctx net d label s output))))"

text \<open>
  The moving average in the specification's words: seeded by the first mean loss, then
  decayed by 0.99 with the new sample weighted 0.01. Over no batch it is the previous
  value. The losses the epochs report: each epoch's is the moving average of its own
  pass, which starts from the store the pass before left.
\<close>

definition moving_average_spec :: "real \<Rightarrow> real list \<Rightarrow> real" where
  "moving_average_spec previous ls =
     (case ls of
        [] \<Rightarrow> previous
      | l # rest \<Rightarrow> foldl (\<lambda>m c. 0.99 * m + 0.01 * c) l rest)"

fun reported_losses :: "externals \<Rightarrow> mx_context \<Rightarrow> block \<Rightarrow> epoch_iters list \<Rightarrow> store \<Rightarrow> real \<Rightarrow> real list" where
  "reported_losses ext ctx net [] s previous = []"
| "reported_losses ext ctx net (it # rest) s previous =
     (let tr = pass_trace ext ctx net (train_iter it) s;
          m = moving_average_spec previous (map snd tr)
      in m # reported_losses ext ctx net rest (if tr = [] then s else fst (last tr)) m)"

section \<open>Histories, invariants and the specification's functions\<close>

text \<open>
  The invariant of a handle: every tensor in its storage has the declared shape, and as
  many elements as the shape says.
\<close>

definition handle_ok :: "parameter \<Rightarrow> bool" where
  "handle_ok p \<longleftrightarrow>
     (\<forall>c t. storage p c = Some t \<longrightarrow>
        shape p = Some (nd_shape t) \<and> length (nd_data t) = prod_list (nd_shape t))"

text \<open>
  The specification's shape check of Get: two shapes conflict only when both are
  specified and differ.
\<close>

definition shapes_compatible :: "nat list option \<Rightarrow> nat list option \<Rightarrow> bool" where
  "shapes_compatible declared requested =
     (case (declared, requested) of (Some old, Some new) \<Rightarrow> old = new | _ \<Rightarrow> True)"

text \<open>
  A history of one registry: the \<open>get\<close> calls made on it, each with its arguments
  (local name, gradient tracking, initialiser, shape). A call that raises leaves the
  registry and the store as they were.
\<close>

type_synonym get_call = "string \<times> bool \<times> initializer option \<times> nat list option"

fun get_calls :: "get_call list \<Rightarrow> parameterdict \<times> store \<Rightarrow> parameterdict \<times> store" where
  "get_calls [] ds = ds"
| "get_calls ((local_name, g, ini, shp) # calls) (d, s) =
     (case get d local_name g ini shp s of
        Inl e \<Rightarrow> get_calls calls (d, s)
      | Inr (r, d', s') \<Rightarrow> get_calls calls (d', s'))"

text \<open>
  The local names of a registry are its keys without the prefix. The invariant of a
  registry in a store: no key occurs twice, and every key starts with the prefix and is
  the name of the handle it refers to.
\<close>

definition local_names :: "parameterdict \<Rightarrow> string list" where
  "local_names d = map (drop (length (prefix d))) (keys d)"

definition dict_ok :: "parameterdict \<Rightarrow> store \<Rightarrow> bool" where
  "dict_ok d s \<longleftrightarrow>
     distinct (keys d) \<and>
     (\<forall>(k, r) \<in> set (params d). r < length s \<and> name (s ! r) = k \<and> take (length (prefix d)) k = prefix d)"

text \<open>
  The specification's words for the layer: the rectifier \<open>activation(v) = v if v > 0
  else 0\<close>, and \<open>activation(input\<cdot>weight + bias)\<close> for an input whose last axis has
  the extent of the weight's first axis; the result has the input's leading axes and the
  weight's last.
\<close>

definition activation :: "real \<Rightarrow> real" where
  "activation v = (if v > 0 then v else 0)"

definition affine_activation :: "ndarray \<Rightarrow> ndarray \<Rightarrow> ndarray \<Rightarrow> ndarray" where
  "affine_activation x w b =
     (let k = last (nd_shape x); n = last (nd_shape w); rows = prod_list (butlast (nd_shape x))
      in \<lparr>nd_shape = butlast (nd_shape x) @ [n],
          nd_data = concat (map (\<lambda>r. map (\<lambda>j.
              activation ((\<Sum>i\<leftarrow>[0..<k]. nd_data x ! (r * k + i) * nd_data w ! (i * n + j))
                          + nd_data b ! j))
              [0..<n]) [0..<rows]),
          nd_context = nd_context x\<rparr>)"

text \<open>
  A \<open>MyDense\<close> block is initialised on a context when its two handles are declared
  with the shapes \<open>(in_units, units)\<close> and \<open>(units,)\<close> and hold tensors of these shapes
  (and sizes) for the context.
\<close>

definition dense_initialized :: "store \<Rightarrow> mydense \<Rightarrow> mx_context \<Rightarrow> bool" where
  "dense_initialized s m c \<longleftrightarrow>
     weight m < length s \<and> bias m < length s \<and>
     shape (s ! weight m) = Some [in_units m, units m] \<and>
     shape (s ! bias m) = Some [units m] \<and>
     (case storage (s ! weight m) c of
        None \<Rightarrow> False
      | Some w \<Rightarrow> nd_shape w = [in_units m, units m] \<and> length (nd_data w) = in_units m * units m) \<and>
     (case storage (s ! bias m) c of
        None \<Rightarrow> False
      | Some b \<Rightarrow> nd_shape b = [units m] \<and> length (nd_data b) = units m)"

text \<open>
  A \<open>MyDense\<close> block as its constructor leaves it in a store: two handles with positive
  extents and no storage yet, registered under the block's prefix.
\<close>

definition layer_declared :: "store \<Rightarrow> mydense \<Rightarrow> bool" where
  "layer_declared s m \<longleftrightarrow>
     weight m < length s \<and> bias m < length s \<and> 0 < in_units m \<and> 0 < units m \<and>
     s ! weight m = Parameter (prefix (md_params m) @ ''weight'') True
                      (Some [in_units m, units m]) (init (s ! weight m)) \<and>
     s ! bias m = Parameter (prefix (md_params m) @ ''bias'') True (Some [units m]) None \<and>
     params (md_params m) =
       [(prefix (md_params m) @ ''weight'', weight m), (prefix (md_params m) @ ''bias'', bias m)]"

text \<open>
  The specification's side of the metric, written without the loop of
  \<open>evaluate_accuracy\<close> and without the metric's \<open>update\<close> and \<open>get\<close>.
  The counts of one batch taken alone are the number of its predictions that equal
  their label and the number of its predictions, or the error the batch raises. The
  batches a call counts are those before its first raising batch: all of its iterator
  when none raises. The hits and instances of a call are the sums over these batches,
  and the accuracy over a list of calls combined is all hits over all instances (no
  value when there is no instance).
\<close>

definition batch_counts :: "mx_context \<Rightarrow> net_fun \<Rightarrow> batch \<Rightarrow> error + (nat \<times> nat)" where
  "batch_counts ctx net b =
     (case b of (data, label) \<Rightarrow>
        (case reshape_rows (as_in_context data ctx) 784 of
           Inl e \<Rightarrow> Inl e
         | Inr d \<Rightarrow>
             (case net d of
                Inl e \<Rightarrow> Inl e
              | Inr output \<Rightarrow>
                  (if nd_shape output \<noteq> nd_shape label \<and> length (nd_shape output) < 2
                   then Inl ShapeMismatchError
                   else
                     (let pred_label = (if nd_shape output \<noteq> nd_shape label
                                        then map real (argmax_axis1 output)
                                        else nd_data output)
                      in if length pred_label \<noteq> length (nd_data label)
                         then Inl ShapeMismatchError
                         else Inr (hits pred_label (nd_data label), length pred_label))))))"

definition counted_batches :: "mx_context \<Rightarrow> batch list \<times> net_fun \<Rightarrow> batch list" where
  "counted_batches ctx call =
     takeWhile (\<lambda>b. \<not> isl (batch_counts ctx (snd call) b)) (fst call)"

definition call_error :: "mx_context \<Rightarrow> batch list \<times> net_fun \<Rightarrow> error option" where
  "call_error ctx call =
     (case dropWhile (\<lambda>b. \<not> isl (batch_counts ctx (snd call) b)) (fst call) of
        [] \<Rightarrow> None
      | b # rest \<Rightarrow> (case batch_counts ctx (snd call) b of Inl e \<Rightarrow> Some e | Inr c \<Rightarrow> None))"

definition call_hits :: "mx_context \<Rightarrow> batch list \<times> net_fun \<Rightarrow> nat" where
  "call_hits ctx call =
     sum_list (map (\<lambda>b. case batch_counts ctx (snd call) b of Inl e \<Rightarrow> 0 | Inr c \<Rightarrow> fst c)
                   (counted_batches ctx call))"

definition call_insts :: "mx_context \<Rightarrow> batch list \<times> net_fun \<Rightarrow> nat" where
  "call_insts ctx call =
     sum_list (map (\<lambda>b. case batch_counts ctx (snd call) b of Inl e \<Rightarrow> 0 | Inr c \<Rightarrow> snd c)
                   (counted_batches ctx call))"

definition accumulated_accuracy :: "mx_context \<Rightarrow> (batch list \<times> net_fun) list \<Rightarrow> real option" where
  "accumulated_accuracy ctx calls =
     (if sum_list (map (call_insts ctx) calls) = 0 then None
      else Some (real (sum_list (map (call_hits ctx) calls))
                 / real (sum_list (map (call_insts ctx) calls))))"

definition plus_counts :: "accuracy \<Rightarrow> accuracy \<Rightarrow> accuracy" where
  "plus_counts m a =
     \<lparr>sum_metric = sum_metric m + sum_metric a, num_inst = num_inst m + num_inst a\<rparr>"

section \<open>Facts about the tensor library\<close>

lemma concat_map_grid:
  "concat (map (\<lambda>r. map (f r) [0..<n]) [0..<m]) = map (\<lambda>i. f (i div n) (i mod n)) [0..<m * n]"
proof (induction m)
  case 0
  then show ?case by simp
next
  case (Suc m)
  have block: "map (\<lambda>i. f (i div n) (i mod n)) [m * n..<m * n + n] = map (f m) [0..<n]"
  proof (rule nth_equalityI)
    show "length (map (\<lambda>i. f (i div n) (i mod n)) [m * n..<m * n + n]) = length (map (f m) [0..<n])"
      by simp
  next
    fix j assume "j < length (map (\<lambda>i. f (i div n) (i mod n)) [m * n..<m * n + n])"
    then have j: "j < n" by simp
    then show "map (\<lambda>i. f (i div n) (i mod n)) [m * n..<m * n + n] ! j = map (f m) [0..<n] ! j"
      by simp
  qed
  have "[0..<Suc m * n] = [0..<m * n] @ [m * n..<m * n + n]"
    by (metis add.commute le_add1 mult_Suc upt_add_eq_append zero_le)
  with Suc block show ?case by simp
qed

lemma broadcast_shape_rev_Nil2: "broadcast_shape_rev xs [] = Some xs"
  by (cases xs) simp_all

lemma ravel_unravel: "i < prod_list ds \<Longrightarrow> ravel_rev ds (unravel_rev ds i) = i"
proof (induction ds arbitrary: i)
  case Nil
  then show ?case by simp
next
  case (Cons d ds)
  from Cons.prems have "i div d < prod_list ds"
    by (simp add: less_mult_imp_div_less mult.commute)
  from Cons.IH [OF this] show ?case by simp
qed

lemma ravel_last_axis: "ravel_rev [n] (unravel_rev (n # ds) i) = i mod n"
  by simp

lemma prod_list_rev_nat: "prod_list (rev ds) = prod_list (ds :: nat list)"
  by (induction ds) (simp_all add: mult.commute)

lemma broadcast_op_row:
  assumes a: "nd_shape a = pre @ [n]" and b: "nd_shape b = [n]"
  shows "broadcast_op f a b =
           Inr \<lparr>nd_shape = pre @ [n],
                nd_data = map (\<lambda>i. f (nd_data a ! i) (nd_data b ! (i mod n))) [0..<prod_list pre * n],
                nd_context = nd_context a\<rparr>"
proof -
  have shp: "broadcast_shape_rev (rev (nd_shape a)) (rev (nd_shape b)) = Some (n # rev pre)"
    using a b by (simp add: broadcast_shape_rev_Nil2)
  have ia: "broadcast_index (pre @ [n]) (pre @ [n]) i = i" if "i < prod_list pre * n" for i
  proof -
    from that have "i < prod_list (n # rev pre)"
      by (simp add: prod_list_rev_nat mult.commute)
    from ravel_unravel [OF this] show ?thesis by (simp add: broadcast_index_def)
  qed
  have ib: "broadcast_index [n] (pre @ [n]) i = i mod n" for i
    by (simp add: broadcast_index_def)
  have "map (\<lambda>i. f (nd_data a ! broadcast_index (pre @ [n]) (pre @ [n]) i)
                    (nd_data b ! broadcast_index [n] (pre @ [n]) i)) [0..<prod_list pre * n]
        = map (\<lambda>i. f (nd_data a ! i) (nd_data b ! (i mod n))) [0..<prod_list pre * n]"
    using ia ib by simp
  with shp a b show ?thesis
    by (simp add: broadcast_op_def)
qed

lemma nd_dot_matrix:
  assumes a: "nd_shape a = pre @ [k]" and b: "nd_shape b = [k, n]"
  shows "nd_dot a b =
           Inr \<lparr>nd_shape = pre @ [n],
                nd_data = map (\<lambda>i. (\<Sum>l\<leftarrow>[0..<k]. nd_data a ! (i div n * k + l) * nd_data b ! (l * n + i mod n)))
                              [0..<prod_list pre * n],
                nd_context = nd_context a\<rparr>"
  using a b by (simp add: nd_dot_def concat_map_grid)

lemma broadcast_op_scalar:
  assumes a: "nd_shape a \<noteq> []" and b: "nd_shape b = [1]"
  shows "broadcast_op f a b =
           Inr \<lparr>nd_shape = nd_shape a,
                nd_data = map (\<lambda>i. f (nd_data a ! i) (nd_data b ! 0)) [0..<prod_list (nd_shape a)],
                nd_context = nd_context a\<rparr>"
proof -
  from a obtain d rest where r: "rev (nd_shape a) = d # rest"
    by (cases "rev (nd_shape a)") auto
  then have sa: "nd_shape a = rev (d # rest)" by (metis rev_rev_ident)
  have shp: "broadcast_shape_rev (rev (nd_shape a)) (rev (nd_shape b)) = Some (d # rest)"
    using r b by (simp add: broadcast_shape_rev_Nil2)
  have ia: "broadcast_index (nd_shape a) (nd_shape a) i = i" if "i < prod_list (nd_shape a)" for i
  proof -
    from that have "i < prod_list (rev (nd_shape a))" by (simp add: prod_list_rev_nat)
    from ravel_unravel [OF this] show ?thesis by (simp add: broadcast_index_def)
  qed
  have ib: "broadcast_index [1] (nd_shape a) i = 0" for i
    by (simp add: broadcast_index_def r)
  have "map (\<lambda>i. f (nd_data a ! broadcast_index (nd_shape a) (nd_shape a) i)
                    (nd_data b ! broadcast_index [1] (nd_shape a) i)) [0..<prod_list (nd_shape a)]
        = map (\<lambda>i. f (nd_data a ! i) (nd_data b ! 0)) [0..<prod_list (nd_shape a)]"
    using ia ib by simp
  with shp b sa show ?thesis
    by (simp add: broadcast_op_def)
qed

section \<open>The centering layer\<close>

text \<open>
  In exact arithmetic \<open>CenteredLayer.forward\<close> keeps the shape, subtracts the mean of all
  elements from each element, and leaves elements that sum to zero. The rounding of the
  floating-point mean and subtraction is outside this model.
\<close>

lemma CenteredLayer_forward_exact:
  assumes "valid_ndarray x"
  shows "CenteredLayer_forward x =
           Inr (x\<lparr>nd_data := map (\<lambda>v. v - sum_list (nd_data x) / real (length (nd_data x)))
                                  (nd_data x)\<rparr>)"
proof -
  from assms have ne: "nd_shape x \<noteq> []" and len: "length (nd_data x) = prod_list (nd_shape x)"
    by (simp_all add: valid_ndarray_def)
  have "map (\<lambda>i. nd_data x ! i - c) [0..<length (nd_data x)] = map (\<lambda>v. v - c) (nd_data x)" for c
    by (rule nth_equalityI) simp_all
  with broadcast_op_scalar [OF ne, of "nd_mean x" "(-)"] len show ?thesis
    by (simp add: CenteredLayer_forward_def broadcast_sub_def nd_mean_def)
qed

lemma centered_sum_zero:
  assumes "xs \<noteq> []"
  shows "sum_list (map (\<lambda>v. v - sum_list xs / real (length xs)) xs) = (0::real)"
proof -
  have "sum_list (map (\<lambda>v. v - c) xs) = sum_list xs - real (length xs) * c" for c :: real
    by (induction xs) (simp_all add: algebra_simps)
  with assms show ?thesis by simp
qed

section \<open>Data and initialisation of a handle\<close>

lemma handle_ok_Parameter: "handle_ok (Parameter n g shp ini)"
  by (simp add: handle_ok_def Parameter_def)

lemma initialize_ctx_props:
  assumes "initialize_ctx f fr p c = Inr p'"
  shows "shape p' = shape p"
    and "handle_ok p \<Longrightarrow> handle_ok p'"
    and "dom (storage p') = insert c (dom (storage p))"
  using assms
  by (auto simp: initialize_ctx_def handle_ok_def allocate_def shape_known_def
      split: if_splits option.splits)

lemma initialize_ctxs_props:
  "initialize_ctxs f fr cs p = Inr p' \<Longrightarrow>
   shape p' = shape p \<and> (handle_ok p \<longrightarrow> handle_ok p') \<and>
   dom (storage p') = set cs \<union> dom (storage p)"
proof (induction cs arbitrary: p)
  case Nil
  then show ?case by simp
next
  case (Cons c cs)
  from Cons.prems obtain q where q: "initialize_ctx f fr p c = Inr q"
    and rest: "initialize_ctxs f fr cs q = Inr p'"
    by (auto split: sum.splits)
  from Cons.IH [OF rest] initialize_ctx_props [OF q] show ?case
    by auto
qed

lemma initialize_props:
  "initialize ini cs d fr p = Inr p' \<Longrightarrow>
   shape p' = shape p \<and> (handle_ok p \<longrightarrow> handle_ok p') \<and>
   dom (storage p') = set cs \<union> dom (storage p)"
  unfolding initialize_def by (rule initialize_ctxs_props)

lemma initialize_calls_props:
  "shape (initialize_calls calls p) = shape p \<and>
   (handle_ok p \<longrightarrow> handle_ok (initialize_calls calls p)) \<and>
   dom (storage (initialize_calls calls p))
     \<subseteq> dom (storage p) \<union> (\<Union>call \<in> set calls. set (fst (snd call)))"
proof (induction calls arbitrary: p)
  case Nil
  then show ?case by simp
next
  case (Cons call calls)
  obtain ini cs d fr where call: "call = (ini, cs, d, fr)" by (cases call)
  show ?case
  proof (cases "initialize ini cs d fr p")
    case (Inl e)
    with call Cons.IH [of p] show ?thesis by auto
  next
    case (Inr q)
    from initialize_props [OF Inr] call Inr Cons.IH [of q] show ?thesis
      by auto
  qed
qed

text \<open>
  Claim C7. For a handle made by the constructor and any history of \<open>initialize\<close>
  calls: \<open>data(context)\<close> fails with UninitializedError when no call so far has asked
  for the context; and once a call that asks for the context has returned,
  \<open>data(context)\<close> returns a tensor whose shape is the handle's declared shape.
\<close>

theorem data_before_and_after_initialize:
  assumes "p = initialize_calls calls (Parameter n g shp ini)"
  shows "(c \<notin> (\<Union>call \<in> set calls. set (fst (snd call))) \<longrightarrow>
            Parameter_data p c = Inl UninitializedError)
       \<and> (\<forall>ini' cs d fr p'. initialize ini' cs d fr p = Inr p' \<and> c \<in> set cs \<longrightarrow>
            (\<exists>t. Parameter_data p' c = Inr t \<and> Some (nd_shape t) = shp \<and> shape p' = shp))"
proof -
  have shp: "shape p = shp"
    using assms initialize_calls_props [of calls "Parameter n g shp ini"]
    by (simp add: Parameter_def)
  have ok: "handle_ok p"
    using assms initialize_calls_props [of calls "Parameter n g shp ini"] handle_ok_Parameter
    by simp
  have dom: "dom (storage p) \<subseteq> (\<Union>call \<in> set calls. set (fst (snd call)))"
    using assms initialize_calls_props [of calls "Parameter n g shp ini"]
    by (simp add: Parameter_def)
  have before: "c \<notin> (\<Union>call \<in> set calls. set (fst (snd call))) \<longrightarrow>
            Parameter_data p c = Inl UninitializedError"
  proof
    assume "c \<notin> (\<Union>call \<in> set calls. set (fst (snd call)))"
    with dom have "storage p c = None" by blast
    then show "Parameter_data p c = Inl UninitializedError"
      by (simp add: Parameter_data_def)
  qed
  have after: "\<exists>t. Parameter_data p' c = Inr t \<and> Some (nd_shape t) = shp \<and> shape p' = shp"
    if run: "initialize ini' cs d fr p = Inr p'" and c: "c \<in> set cs" for ini' cs d fr p'
  proof -
    from initialize_props [OF run] ok shp c
    have "shape p' = shp" and ok': "handle_ok p'" and "c \<in> dom (storage p')"
      by auto
    then obtain t where t: "storage p' c = Some t" by auto
    with ok' \<open>shape p' = shp\<close> have "Some (nd_shape t) = shp" by (auto simp: handle_ok_def)
    with t \<open>shape p' = shp\<close> show ?thesis by (simp add: Parameter_data_def)
  qed
  from before after show ?thesis by blast
qed

theorem data_before_and_after_initialize_witness:
  "Parameter_data (Parameter ''exciting_parameter_yay'' True (Some [5, 5]) None) (cpu 0)
     = Inl UninitializedError
   \<and> (\<exists>p' t. initialize (Some (\<lambda>ds c i. 0)) [cpu 0] (\<lambda>ds c i. 0) False
               (Parameter ''exciting_parameter_yay'' True (Some [5, 5]) None) = Inr p'
            \<and> Parameter_data p' (cpu 0) = Inr t \<and> nd_shape t = [5, 5])"
proof -
  let ?p = "Parameter ''exciting_parameter_yay'' True (Some [5, 5]) None"
  have hist: "?p = initialize_calls [] ?p" by simp
  have call: "\<exists>p'. initialize (Some (\<lambda>ds c i. 0)) [cpu 0] (\<lambda>ds c i. 0) False ?p = Inr p'"
    by (simp add: initialize_def initialize_ctx_def Parameter_def shape_known_def)
  then obtain p' where p': "initialize (Some (\<lambda>ds c i. 0)) [cpu 0] (\<lambda>ds c i. 0) False ?p = Inr p'" ..
  from data_before_and_after_initialize [OF hist, of "cpu 0"] p'
  show ?thesis by fastforce
qed

section \<open>Registration in a parameter dictionary\<close>

lemma get_present:
  "map_of (params d) (prefix d @ n) = Some r \<Longrightarrow>
   get d n g ini shp s =
     (if shapes_compatible (shape (s ! r)) shp then Inr (r, d, s) else Inl ShapeMismatchError)"
  by (auto simp: get_def shapes_compatible_def split: option.splits)

lemma get_result:
  assumes "get d n g ini shp s = Inr (r, d1, s1)"
  shows "map_of (params d1) (prefix d1 @ n) = Some r"
    and "shapes_compatible (shape (s1 ! r)) shp"
    and "prefix d1 = prefix d"
  using assms
  by (auto simp: get_def shapes_compatible_def Parameter_def map_add_def
      split: option.splits if_splits)

text \<open>
  Claim C3. After a \<open>get\<close> for a local name has returned a handle, the same call made
  again returns the same handle and changes neither the registry nor the store; and any
  further \<open>get\<close> for that local name returns this handle when the requested shape is
  compatible with the handle's, and fails with ShapeMismatchError when it is not.
\<close>

theorem get_twice_same_handle:
  assumes "get d n g ini shp s = Inr (r, d1, s1)"
  shows "get d1 n g ini shp s1 = Inr (r, d1, s1)
       \<and> (\<forall>g2 ini2 shp2. get d1 n g2 ini2 shp2 s1 =
            (if shapes_compatible (shape (s1 ! r)) shp2 then Inr (r, d1, s1)
             else Inl ShapeMismatchError))"
  using get_result [OF assms] get_present [of d1 n r] by simp

theorem get_twice_same_handle_witness:
  "get (ParameterDict ''block1_'') ''exciting_parameter_yay'' True None (Some [5, 5]) [] =
     Inr (0, \<lparr>prefix = ''block1_'', params = [(''block1_exciting_parameter_yay'', 0)]\<rparr>,
          [Parameter ''block1_exciting_parameter_yay'' True (Some [5, 5]) None])
   \<and> get \<lparr>prefix = ''block1_'', params = [(''block1_exciting_parameter_yay'', 0)]\<rparr>
        ''exciting_parameter_yay'' True None (Some [5, 5])
        [Parameter ''block1_exciting_parameter_yay'' True (Some [5, 5]) None] =
     Inr (0, \<lparr>prefix = ''block1_'', params = [(''block1_exciting_parameter_yay'', 0)]\<rparr>,
          [Parameter ''block1_exciting_parameter_yay'' True (Some [5, 5]) None])
   \<and> get \<lparr>prefix = ''block1_'', params = [(''block1_exciting_parameter_yay'', 0)]\<rparr>
        ''exciting_parameter_yay'' True None (Some [3, 3])
        [Parameter ''block1_exciting_parameter_yay'' True (Some [5, 5]) None] =
     Inl ShapeMismatchError"
proof -
  have first: "get (ParameterDict ''block1_'') ''exciting_parameter_yay'' True None (Some [5, 5]) [] =
     Inr (0, \<lparr>prefix = ''block1_'', params = [(''block1_exciting_parameter_yay'', 0)]\<rparr>,
          [Parameter ''block1_exciting_parameter_yay'' True (Some [5, 5]) None])"
    by (simp add: get_def ParameterDict_def)
  from get_twice_same_handle [OF first] first show ?thesis
    by (simp add: shapes_compatible_def Parameter_def)
qed

lemma dict_ok_empty: "dict_ok (ParameterDict p) s"
  by (simp add: dict_ok_def ParameterDict_def keys_def)

lemma dict_ok_get:
  assumes ok: "dict_ok d s" and run: "get d n g ini shp s = Inr (r, d1, s1)"
  shows "dict_ok d1 s1"
proof (cases "map_of (params d) (prefix d @ n)")
  case (Some r')
  with run have "d1 = d" "s1 = s"
    by (auto simp: get_def split: option.splits if_splits)
  with ok show ?thesis by simp
next
  case None
  with run have d1: "d1 = d\<lparr>params := params d @ [(prefix d @ n, length s)]\<rparr>"
    and s1: "s1 = s @ [Parameter (prefix d @ n) g shp ini]"
    by (auto simp: get_def)
  from None have new: "prefix d @ n \<notin> set (keys d)"
    by (simp add: keys_def map_of_eq_None_iff)
  from ok new show ?thesis
    unfolding dict_ok_def d1 s1 keys_def
    by (auto simp: nth_append Parameter_def)
qed

lemma dict_ok_get_calls:
  "dict_ok d s \<Longrightarrow> dict_ok (fst (get_calls calls (d, s))) (snd (get_calls calls (d, s)))"
proof (induction calls arbitrary: d s)
  case Nil
  then show ?case by simp
next
  case (Cons call calls)
  obtain n g ini shp where call: "call = (n, g, ini, shp)" by (cases call)
  show ?case
  proof (cases "get d n g ini shp s")
    case (Inl e)
    with call Cons show ?thesis by simp
  next
    case (Inr res)
    obtain r d1 s1 where res: "res = (r, d1, s1)" by (cases res)
    from dict_ok_get [OF Cons.prems] Inr res have "dict_ok d1 s1" by simp
    from Cons.IH [OF this] call Inr res show ?thesis by simp
  qed
qed

lemma prefix_get_calls: "prefix (fst (get_calls calls (d, s))) = prefix d"
proof (induction calls arbitrary: d s)
  case Nil
  then show ?case by simp
next
  case (Cons call calls)
  obtain n g ini shp where call: "call = (n, g, ini, shp)" by (cases call)
  show ?case
  proof (cases "get d n g ini shp s")
    case (Inl e)
    with call Cons show ?thesis by simp
  next
    case (Inr res)
    obtain r d1 s1 where res: "res = (r, d1, s1)" by (cases res)
    from get_result(3) Inr res have "prefix d1 = prefix d" by simp
    with Cons.IH [of d1 s1] call Inr res show ?thesis by simp
  qed
qed

lemma dict_ok_names:
  assumes "dict_ok d s"
  shows "keys d = map ((@) (prefix d)) (local_names d)" and "distinct (local_names d)"
proof -
  have k: "\<forall>k \<in> set (keys d). prefix d @ drop (length (prefix d)) k = k"
  proof
    fix k assume "k \<in> set (keys d)"
    with assms have "take (length (prefix d)) k = prefix d"
      by (auto simp: dict_ok_def keys_def)
    then show "prefix d @ drop (length (prefix d)) k = k"
      by (metis append_take_drop_id)
  qed
  then show eq: "keys d = map ((@) (prefix d)) (local_names d)"
    by (simp add: local_names_def map_idI)
  from assms have "distinct (keys d)" by (simp add: dict_ok_def)
  with eq show "distinct (local_names d)"
    by (metis distinct_map)
qed

text \<open>
  Claim C5. In every registry made with prefix \<open>p\<close> and filled by \<open>get\<close> calls, each
  key is \<open>p\<close> followed by a local name and is the name of the handle registered under
  it, so the handle found under the local name \<open>n\<close> is named \<open>p @ n\<close>; and no local
  name occurs twice.
\<close>

theorem registry_names:
  assumes "(d, s) = get_calls calls (ParameterDict p, s0)"
  shows "prefix d = p
       \<and> keys d = map ((@) p) (local_names d)
       \<and> distinct (local_names d)
       \<and> (\<forall>(k, r) \<in> set (params d). r < length s \<and> name (s ! r) = k)
       \<and> (\<forall>n r. lookup d (p @ n) = Inr r \<longrightarrow> name (s ! r) = p @ n)"
proof -
  have ok: "dict_ok d s"
    using dict_ok_get_calls [OF dict_ok_empty [of p s0], of calls] assms
    by (metis fst_conv snd_conv)
  have p: "prefix d = p"
    using prefix_get_calls [of calls "ParameterDict p" s0] assms
    by (metis fst_conv ParameterDict_def parameterdict.select_convs(1))
  have entries: "\<forall>(k, r) \<in> set (params d). r < length s \<and> name (s ! r) = k"
    using ok by (auto simp: dict_ok_def)
  have look: "\<forall>n r. lookup d (p @ n) = Inr r \<longrightarrow> name (s ! r) = p @ n"
  proof (intro allI impI)
    fix n r assume "lookup d (p @ n) = Inr r"
    then have "map_of (params d) (p @ n) = Some r"
      by (auto simp: lookup_def split: option.splits)
    then have "(p @ n, r) \<in> set (params d)" by (rule map_of_SomeD)
    with entries show "name (s ! r) = p @ n" by auto
  qed
  from dict_ok_names [OF ok] p entries look show ?thesis by simp
qed

theorem registry_names_witness:
  "prefix (fst (get_calls
       [(''weight'', True, None, Some [10, 20]), (''bias'', True, None, Some [20]),
        (''weight'', True, None, None)] (ParameterDict ''mydense0_'', []))) = ''mydense0_''
   \<and> keys (fst (get_calls
       [(''weight'', True, None, Some [10, 20]), (''bias'', True, None, Some [20]),
        (''weight'', True, None, None)] (ParameterDict ''mydense0_'', [])))
       = [''mydense0_weight'', ''mydense0_bias'']
   \<and> local_names (fst (get_calls
       [(''weight'', True, None, Some [10, 20]), (''bias'', True, None, Some [20]),
        (''weight'', True, None, None)] (ParameterDict ''mydense0_'', [])))
       = [''weight'', ''bias'']
   \<and> map name (snd (get_calls
       [(''weight'', True, None, Some [10, 20]), (''bias'', True, None, Some [20]),
        (''weight'', True, None, None)] (ParameterDict ''mydense0_'', [])))
       = [''mydense0_weight'', ''mydense0_bias'']"
proof -
  let ?calls = "[(''weight'', True, None, Some [10, 20]), (''bias'', True, None, Some [20]),
        (''weight'', True, None, None)]"
  let ?d = "\<lparr>prefix = ''mydense0_'',
             params = [(''mydense0_weight'', 0), (''mydense0_bias'', Suc 0)]\<rparr>"
  let ?s = "[Parameter ''mydense0_weight'' True (Some [10, 20]) None,
             Parameter ''mydense0_bias'' True (Some [20]) None]"
  have run: "(?d, ?s) = get_calls ?calls (ParameterDict ''mydense0_'', [])"
    by (simp add: get_def ParameterDict_def Parameter_def)
  from registry_names [OF run] have "keys ?d = map ((@) ''mydense0_'') (local_names ?d)"
    by simp
  then show ?thesis
    unfolding run [symmetric]
    by (simp add: keys_def local_names_def Parameter_def)
qed

section \<open>Collecting the parameters of a block tree\<close>

lemma update_params_disjoint:
  "distinct (map fst new) \<Longrightarrow> set (map fst acc) \<inter> set (map fst new) = {} \<Longrightarrow>
   update_params acc new = Inr (acc @ new)"
proof (induction new arbitrary: acc)
  case Nil
  then show ?case by simp
next
  case (Cons e new)
  obtain k r where e: "e = (k, r)" by (cases e)
  from Cons.prems e have "k \<notin> set (map fst acc)" by auto
  moreover from Cons.prems e have "update_params (acc @ [(k, r)]) new = Inr ((acc @ [(k, r)]) @ new)"
    by (intro Cons.IH) auto
  ultimately show ?case using e by simp
qed

lemma update_params_collision:
  "set (map fst acc) \<inter> set (map fst new) \<noteq> {} \<Longrightarrow>
   update_params acc new = Inl NameCollisionError"
proof (induction new arbitrary: acc)
  case Nil
  then show ?case by simp
next
  case (Cons e new)
  obtain k r where e: "e = (k, r)" by (cases e)
  show ?case
  proof (cases "k \<in> set (map fst acc)")
    case True
    with e show ?thesis by simp
  next
    case False
    with Cons.prems e have "set (map fst (acc @ [(k, r)])) \<inter> set (map fst new) \<noteq> {}"
      by auto
    from Cons.IH [OF this] False e show ?thesis by simp
  qed
qed

lemma collect_params_leaf:
  assumes "children c = []" and "distinct (keys (block_params c))"
  shows "collect_params c =
           Inr \<lparr>prefix = prefix (block_params c), params = params (block_params c)\<rparr>"
  using assms update_params_disjoint [of "params (block_params c)" "[]"]
  by (cases c) (simp_all add: update_def ParameterDict_def keys_def)

text \<open>
  Claim C6. For a root \<open>nn.Sequential\<close> with two children without children of their
  own, each with a registry without repeated keys: \<open>collect_params\<close> gives the keys of
  the first child followed by those of the second, without duplicates, when the children
  share no fully-qualified name, and fails with NameCollisionError when they share one.
\<close>

theorem collect_params_two_children:
  assumes "children c1 = []" and "children c2 = []"
    and "distinct (keys (block_params c1))" and "distinct (keys (block_params c2))"
  shows "(case add (Sequential_init p) c1 of Inl e \<Rightarrow> Inl e | Inr net \<Rightarrow> add net c2)
           = Inr (Sequential (ParameterDict p) [c1, c2])
       \<and> collect_params (Sequential (ParameterDict p) [c1, c2]) =
           (if set (keys (block_params c1)) \<inter> set (keys (block_params c2)) = {}
            then Inr \<lparr>prefix = p, params = params (block_params c1) @ params (block_params c2)\<rparr>
            else Inl NameCollisionError)
       \<and> (set (keys (block_params c1)) \<inter> set (keys (block_params c2)) = {} \<longrightarrow>
            distinct (keys (block_params c1) @ keys (block_params c2)))"
proof -
  have build: "(case add (Sequential_init p) c1 of Inl e \<Rightarrow> Inl e | Inr net \<Rightarrow> add net c2)
           = Inr (Sequential (ParameterDict p) [c1, c2])"
    by (simp add: Sequential_init_def)
  have own: "update (ParameterDict p) (ParameterDict p) = Inr (ParameterDict p)"
    by (simp add: update_def ParameterDict_def)
  have first: "update (ParameterDict p)
                 \<lparr>prefix = prefix (block_params c1), params = params (block_params c1)\<rparr>
               = Inr \<lparr>prefix = p, params = params (block_params c1)\<rparr>"
    using assms(3) update_params_disjoint [of "params (block_params c1)" "[]"]
    by (simp add: update_def ParameterDict_def keys_def)
  have second: "update \<lparr>prefix = p, params = params (block_params c1)\<rparr>
                 \<lparr>prefix = prefix (block_params c2), params = params (block_params c2)\<rparr>
               = (if set (keys (block_params c1)) \<inter> set (keys (block_params c2)) = {}
                  then Inr \<lparr>prefix = p, params = params (block_params c1) @ params (block_params c2)\<rparr>
                  else Inl NameCollisionError)"
    using assms(4)
      update_params_disjoint [of "params (block_params c2)" "params (block_params c1)"]
      update_params_collision [of "params (block_params c1)" "params (block_params c2)"]
    by (simp add: update_def keys_def)
  have collect: "collect_params (Sequential (ParameterDict p) [c1, c2]) =
           (if set (keys (block_params c1)) \<inter> set (keys (block_params c2)) = {}
            then Inr \<lparr>prefix = p, params = params (block_params c1) @ params (block_params c2)\<rparr>
            else Inl NameCollisionError)"
    using own first second collect_params_leaf [OF assms(1) assms(3)]
      collect_params_leaf [OF assms(2) assms(4)]
    by (simp add: ParameterDict_def)
  have dist: "set (keys (block_params c1)) \<inter> set (keys (block_params c2)) = {} \<longrightarrow>
            distinct (keys (block_params c1) @ keys (block_params c2))"
    using assms(3) assms(4) by simp
  from build collect dist show ?thesis by blast
qed

theorem collect_params_two_children_witness:
  "collect_params (Sequential (ParameterDict ''net_'')
      [MyDense \<lparr>units = 128, in_units = 784,
                md_params = \<lparr>prefix = ''net_a_'', params = [(''net_a_weight'', 0), (''net_a_bias'', 1)]\<rparr>,
                weight = 0, bias = 1\<rparr>,
       MyDense \<lparr>units = 64, in_units = 128,
                md_params = \<lparr>prefix = ''net_b_'', params = [(''net_b_weight'', 2), (''net_b_bias'', 3)]\<rparr>,
                weight = 2, bias = 3\<rparr>])
     = Inr \<lparr>prefix = ''net_'',
            params = [(''net_a_weight'', 0), (''net_a_bias'', 1),
                      (''net_b_weight'', 2), (''net_b_bias'', 3)]\<rparr>
   \<and> collect_params (Sequential (ParameterDict ''net_'')
      [MyDense \<lparr>units = 128, in_units = 784,
                md_params = \<lparr>prefix = ''net_a_'', params = [(''net_a_weight'', 0), (''net_a_bias'', 1)]\<rparr>,
                weight = 0, bias = 1\<rparr>,
       MyDense \<lparr>units = 64, in_units = 128,
                md_params = \<lparr>prefix = ''net_a_'', params = [(''net_a_weight'', 2), (''net_a_bias'', 3)]\<rparr>,
                weight = 2, bias = 3\<rparr>])
     = Inl NameCollisionError"
proof -
  let ?a = "MyDense \<lparr>units = 128, in_units = 784,
                md_params = \<lparr>prefix = ''net_a_'', params = [(''net_a_weight'', 0), (''net_a_bias'', 1)]\<rparr>,
                weight = 0, bias = 1\<rparr>"
  let ?b = "MyDense \<lparr>units = 64, in_units = 128,
                md_params = \<lparr>prefix = ''net_b_'', params = [(''net_b_weight'', 2), (''net_b_bias'', 3)]\<rparr>,
                weight = 2, bias = 3\<rparr>"
  let ?a' = "MyDense \<lparr>units = 64, in_units = 128,
                md_params = \<lparr>prefix = ''net_a_'', params = [(''net_a_weight'', 2), (''net_a_bias'', 3)]\<rparr>,
                weight = 2, bias = 3\<rparr>"
  have la: "children ?a = []" and lb: "children ?b = []" and la': "children ?a' = []"
    by simp_all
  have da: "distinct (keys (block_params ?a))" and db: "distinct (keys (block_params ?b))"
    and da': "distinct (keys (block_params ?a'))"
    by (simp_all add: keys_def)
  from collect_params_two_children [OF la lb da db, of "''net_''"]
    collect_params_two_children [OF la la' da da', of "''net_''"]
  show ?thesis by (simp add: keys_def)
qed

section \<open>The forward pass of MyDense\<close>

lemma MyDense_forward_affine:
  assumes ini: "dense_initialized s m (nd_context x)"
    and x: "nd_shape x \<noteq> []" "last (nd_shape x) = in_units m"
  shows "\<exists>w b. Parameter_data (s ! weight m) (nd_context x) = Inr w
             \<and> Parameter_data (s ! bias m) (nd_context x) = Inr b
             \<and> nd_shape w = [in_units m, units m] \<and> nd_shape b = [units m]
             \<and> MyDense_forward s m x = Inr (affine_activation x w b)"
proof -
  from ini obtain w b where w: "storage (s ! weight m) (nd_context x) = Some w"
    and b: "storage (s ! bias m) (nd_context x) = Some b"
    and ws: "nd_shape w = [in_units m, units m]" and bs: "nd_shape b = [units m]"
    by (auto simp: dense_initialized_def split: option.splits)
  from x have xs: "nd_shape x = butlast (nd_shape x) @ [in_units m]"
    by (metis append_butlast_last_id)
  define pre where "pre = butlast (nd_shape x)"
  define n where "n = units m"
  define k where "k = in_units m"
  define N where "N = prod_list pre * n"
  define g where "g = (\<lambda>i. (\<Sum>l\<leftarrow>[0..<k]. nd_data x ! (i div n * k + l) * nd_data w ! (l * n + i mod n)))"
  define xw where "xw = \<lparr>nd_shape = pre @ [n], nd_data = map g [0..<N], nd_context = nd_context x\<rparr>"
  define lin where "lin = \<lparr>nd_shape = pre @ [n],
      nd_data = map (\<lambda>i. g i + nd_data b ! (i mod n)) [0..<N], nd_context = nd_context x\<rparr>"
  have dot: "nd_dot x w = Inr xw"
    using nd_dot_matrix [of x pre k w n] xs ws
    by (simp add: xw_def g_def N_def pre_def n_def k_def)
  have "broadcast_add xw b =
     Inr \<lparr>nd_shape = pre @ [n],
          nd_data = map (\<lambda>i. nd_data xw ! i + nd_data b ! (i mod n)) [0..<prod_list pre * n],
          nd_context = nd_context xw\<rparr>"
    unfolding broadcast_add_def
    by (rule broadcast_op_row) (simp_all add: bs xw_def n_def)
  moreover have "map (\<lambda>i. nd_data xw ! i + nd_data b ! (i mod n)) [0..<prod_list pre * n]
      = map (\<lambda>i. g i + nd_data b ! (i mod n)) [0..<N]"
    by (simp add: xw_def N_def)
  ultimately have add: "broadcast_add xw b = Inr lin"
    by (simp add: lin_def xw_def)
  have act: "(\<lambda>v. max v 0) = activation"
    by (rule ext) (simp add: activation_def max_def not_less)
  have relu: "relu lin = \<lparr>nd_shape = pre @ [n],
      nd_data = map (\<lambda>i. activation (g i + nd_data b ! (i mod n))) [0..<N],
      nd_context = nd_context x\<rparr>"
    by (simp add: relu_def nd_maximum_def lin_def act comp_def)
  have spec: "affine_activation x w b = \<lparr>nd_shape = pre @ [n],
      nd_data = map (\<lambda>i. activation (g i + nd_data b ! (i mod n))) [0..<N],
      nd_context = nd_context x\<rparr>"
    using x(2) ws
    by (simp add: affine_activation_def Let_def concat_map_grid g_def N_def pre_def n_def k_def)
  have fw: "MyDense_forward s m x = Inr (affine_activation x w b)"
    using w b dot add relu spec
    by (simp add: MyDense_forward_def Parameter_data_def)
  from w b ws bs fw show ?thesis by (simp add: Parameter_data_def)
qed

text \<open>
  Claim C1. For an initialised \<open>MyDense\<close> block, with the weight handle shaped
  \<open>(in_units, units)\<close> and the bias handle shaped \<open>(units,)\<close>, and an input array whose
  last axis has extent \<open>in_units\<close>: \<open>forward(x)\<close> returns
  \<open>activation(x\<cdot>weight + bias)\<close>, with the elementwise rectifier
  \<open>activation(v) = v if v > 0 else 0\<close>. Elements are real numbers.
\<close>

theorem MyDense_forward_correct:
  assumes "dense_initialized s m (nd_context x)"
    and "valid_ndarray x" and "last (nd_shape x) = in_units m"
  shows "\<exists>w b. Parameter_data (s ! weight m) (nd_context x) = Inr w
             \<and> Parameter_data (s ! bias m) (nd_context x) = Inr b
             \<and> nd_shape w = [in_units m, units m] \<and> nd_shape b = [units m]
             \<and> forward s (MyDense m) x = Inr (affine_activation x w b)"
  using MyDense_forward_affine [OF assms(1) _ assms(3)] assms(2)
  by (simp add: valid_ndarray_def)

lemma MyDense_init_result:
  "MyDense_init pfx n_units n_in xavier s =
     Inr (\<lparr>units = n_units, in_units = n_in,
           md_params = \<lparr>prefix = pfx,
                        params = [(pfx @ ''weight'', length s), (pfx @ ''bias'', Suc (length s))]\<rparr>,
           weight = length s, bias = Suc (length s)\<rparr>,
          s @ [Parameter (pfx @ ''weight'') True (Some [n_in, n_units]) (Some xavier),
               Parameter (pfx @ ''bias'') True (Some [n_units]) None])"
  by (simp add: MyDense_init_def get_def ParameterDict_def)

theorem MyDense_forward_correct_witness:
  "(case MyDense_init ''mydense0_'' 2 3 (\<lambda>ds c i. real i - 2) [] of
      Inl e \<Rightarrow> Inl e
    | Inr (m, s1) \<Rightarrow>
        (case initialize_all (MyDense m) (\<lambda>ds c i. - 5) [cpu 0] s1 of
           (Some e, s2) \<Rightarrow> Inl e
         | (None, s2) \<Rightarrow>
             forward s2 (MyDense m)
               \<lparr>nd_shape = [2, 3], nd_data = [1, 2, 3, - 1, 0, 1], nd_context = cpu 0\<rparr>))
   = Inr \<lparr>nd_shape = [2, 2], nd_data = [0, 5, 0, 0], nd_context = cpu 0\<rparr>"
proof -
  let ?x = "\<lparr>nd_shape = [2, 3], nd_data = [1, 2, 3, - 1, 0, 1], nd_context = cpu 0\<rparr>"
  let ?m = "\<lparr>units = 2, in_units = 3,
           md_params = \<lparr>prefix = ''mydense0_'',
                        params = [(''mydense0_weight'', 0), (''mydense0_bias'', Suc 0)]\<rparr>,
           weight = 0, bias = Suc 0\<rparr>"
  let ?w = "allocate (\<lambda>ds c i. real i - 2) [3, 2] (cpu 0)"
  let ?b = "allocate (\<lambda>ds c i. - 5) [2] (cpu 0)"
  let ?s2 = "[Parameter ''mydense0_weight'' True (Some [3, 2]) (Some (\<lambda>ds c i. real i - 2))
                \<lparr>storage := [cpu 0 \<mapsto> ?w], grad_storage := [cpu 0 \<mapsto> nd_zeros [3, 2] (cpu 0)]\<rparr>,
              Parameter ''mydense0_bias'' True (Some [2]) None
                \<lparr>storage := [cpu 0 \<mapsto> ?b], grad_storage := [cpu 0 \<mapsto> nd_zeros [2] (cpu 0)]\<rparr>]"
  have init: "initialize_all (MyDense ?m) (\<lambda>ds c i. - 5) [cpu 0]
      [Parameter ''mydense0_weight'' True (Some [3, 2]) (Some (\<lambda>ds c i. real i - 2)),
       Parameter ''mydense0_bias'' True (Some [2]) None] = (None, ?s2)"
    by (simp add: initialize_all_def update_def ParameterDict_def ParameterDict_initialize_def
        initialize_def initialize_ctx_def Parameter_def shape_known_def)
  have ready: "dense_initialized ?s2 ?m (nd_context ?x)"
    by (simp add: dense_initialized_def Parameter_def allocate_def)
  have valid: "valid_ndarray ?x" by (simp add: valid_ndarray_def)
  have spec: "affine_activation ?x ?w ?b
      = \<lparr>nd_shape = [2, 2], nd_data = [0, 5, 0, 0], nd_context = cpu 0\<rparr>"
    by code_simp
  from MyDense_forward_correct [OF ready valid] spec
  have "forward ?s2 (MyDense ?m) ?x = Inr \<lparr>nd_shape = [2, 2], nd_data = [0, 5, 0, 0], nd_context = cpu 0\<rparr>"
    by (simp add: Parameter_data_def Parameter_def)
  with init show ?thesis
    by (simp add: MyDense_init_result)
qed

section \<open>Initialising the blocks of the notebook\<close>

lemma activation_nonneg: "0 \<le> activation v"
  by (simp add: activation_def)

lemma affine_activation_props:
  assumes "nd_shape x \<noteq> []" and "nd_shape w = [k, n]"
  shows "nd_shape (affine_activation x w b) = butlast (nd_shape x) @ [n]"
    and "nd_context (affine_activation x w b) = nd_context x"
    and "length (nd_data (affine_activation x w b)) = prod_list (butlast (nd_shape x)) * n"
    and "\<forall>v \<in> set (nd_data (affine_activation x w b)). 0 \<le> v"
  using assms
  by (auto simp: affine_activation_def Let_def concat_map_grid activation_nonneg)

lemma MyDense_forward_props:
  assumes ini: "dense_initialized s m (nd_context x)"
    and x: "nd_shape x = pre @ [in_units m]"
  shows "\<exists>y. MyDense_forward s m x = Inr y \<and> nd_shape y = pre @ [units m]
            \<and> nd_context y = nd_context x
            \<and> length (nd_data y) = prod_list pre * units m
            \<and> (\<forall>v \<in> set (nd_data y). 0 \<le> v)"
proof -
  from x have ne: "nd_shape x \<noteq> []" and last: "last (nd_shape x) = in_units m"
    and pre: "butlast (nd_shape x) = pre"
    by simp_all
  from MyDense_forward_affine [OF ini ne last] obtain w b
    where ws: "nd_shape w = [in_units m, units m]"
      and fw: "MyDense_forward s m x = Inr (affine_activation x w b)"
    by blast
  from affine_activation_props [OF ne ws, of b] fw pre show ?thesis
    by simp
qed

lemma MyDense_forward_mismatch:
  assumes ini: "dense_initialized s m (nd_context x)"
    and x: "nd_shape x \<noteq> []" "last (nd_shape x) \<noteq> in_units m"
  shows "MyDense_forward s m x = Inl ShapeMismatchError"
  using assms
  by (auto simp: dense_initialized_def MyDense_forward_def Parameter_data_def nd_dot_def
      split: option.splits)

lemma MyDense_forward_uninitialized:
  assumes "storage (s ! weight m) (nd_context x) = None"
  shows "MyDense_forward s m x = Inl UninitializedError"
  using assms by (simp add: MyDense_forward_def Parameter_data_def)

lemma initialize_shape_unknown:
  assumes "\<not> shape_known (shape p)" and "storage p = Map.empty" and "cs \<noteq> []"
  shows "initialize ini cs d fr p = Inl ShapeUndefinedError"
  using assms
  by (cases cs) (auto simp: initialize_def initialize_ctx_def shape_known_def split: option.splits)

lemma initialize_ctx_known:
  assumes "shape_known (shape p)"
  shows "\<exists>q. initialize_ctx f fr p c = Inr q"
  using assms
  by (cases "shape p") (simp_all add: initialize_ctx_def shape_known_def)

lemma initialize_ctxs_known:
  "shape_known (shape p) \<Longrightarrow> \<exists>p'. initialize_ctxs f fr cs p = Inr p'"
proof (induction cs arbitrary: p)
  case Nil
  then show ?case by simp
next
  case (Cons c cs)
  from initialize_ctx_known [OF Cons.prems] obtain q
    where q: "initialize_ctx f fr p c = Inr q" by blast
  from initialize_ctx_props(1) [OF q] Cons.prems have "shape_known (shape q)" by simp
  from Cons.IH [OF this] q show ?case by simp
qed

lemma initialize_known:
  assumes "shape_known (shape p)"
  shows "\<exists>p'. initialize ini cs d fr p = Inr p'"
  unfolding initialize_def by (rule initialize_ctxs_known [OF assms])

lemma initialize_params_known:
  assumes "\<forall>(k, r) \<in> set es. r < length s \<and> shape_known (shape (s ! r))"
  shows "\<exists>s'. initialize_params f cs es s = (None, s') \<and> length s' = length s \<and>
           (\<forall>r < length s.
              shape (s' ! r) = shape (s ! r) \<and>
              (handle_ok (s ! r) \<longrightarrow> handle_ok (s' ! r)) \<and>
              dom (storage (s ! r)) \<subseteq> dom (storage (s' ! r)) \<and>
              (r \<in> snd ` set es \<longrightarrow> set cs \<subseteq> dom (storage (s' ! r))))"
  using assms
proof (induction es arbitrary: s)
  case Nil
  then show ?case by simp
next
  case (Cons e es)
  obtain k r where e: "e = (k, r)" by (cases e)
  from Cons.prems e have r: "r < length s" and known: "shape_known (shape (s ! r))"
    by auto
  from initialize_known [OF known] obtain p
    where p: "initialize None cs f False (s ! r) = Inr p" by blast
  note pp = initialize_props [OF p]
  let ?s1 = "s[r := p]"
  have prem: "\<forall>(k, r) \<in> set es. r < length ?s1 \<and> shape_known (shape (?s1 ! r))"
  proof (clarify)
    fix k' r' assume "(k', r') \<in> set es"
    with Cons.prems have r': "r' < length s" "shape_known (shape (s ! r'))" by auto
    moreover have "shape (?s1 ! r') = shape (s ! r')"
      using r pp by (cases "r' = r") simp_all
    ultimately show "r' < length ?s1 \<and> shape_known (shape (?s1 ! r'))" by simp
  qed
  from Cons.IH [OF prem] obtain s' where run: "initialize_params f cs es ?s1 = (None, s')"
    and len: "length s' = length ?s1"
    and inv: "\<forall>q < length ?s1.
              shape (s' ! q) = shape (?s1 ! q) \<and>
              (handle_ok (?s1 ! q) \<longrightarrow> handle_ok (s' ! q)) \<and>
              dom (storage (?s1 ! q)) \<subseteq> dom (storage (s' ! q)) \<and>
              (q \<in> snd ` set es \<longrightarrow> set cs \<subseteq> dom (storage (s' ! q)))"
    by blast
  have "\<forall>q < length s.
              shape (s' ! q) = shape (s ! q) \<and>
              (handle_ok (s ! q) \<longrightarrow> handle_ok (s' ! q)) \<and>
              dom (storage (s ! q)) \<subseteq> dom (storage (s' ! q)) \<and>
              (q \<in> snd ` set (e # es) \<longrightarrow> set cs \<subseteq> dom (storage (s' ! q)))"
  proof (intro allI impI)
    fix q assume q: "q < length s"
    with inv have i: "shape (s' ! q) = shape (?s1 ! q)"
      "handle_ok (?s1 ! q) \<longrightarrow> handle_ok (s' ! q)"
      "dom (storage (?s1 ! q)) \<subseteq> dom (storage (s' ! q))"
      "q \<in> snd ` set es \<longrightarrow> set cs \<subseteq> dom (storage (s' ! q))"
      by simp_all
    show "shape (s' ! q) = shape (s ! q) \<and>
              (handle_ok (s ! q) \<longrightarrow> handle_ok (s' ! q)) \<and>
              dom (storage (s ! q)) \<subseteq> dom (storage (s' ! q)) \<and>
              (q \<in> snd ` set (e # es) \<longrightarrow> set cs \<subseteq> dom (storage (s' ! q)))"
    proof (cases "q = r")
      case True
      with i pp r e show ?thesis by auto
    next
      case False
      with i e show ?thesis by auto
    qed
  qed
  with run len p e show ?case by simp
qed

lemma initialize_all_known:
  assumes collect: "collect_params b = Inr d"
    and entries: "\<forall>(k, r) \<in> set (params d). r < length s \<and> shape_known (shape (s ! r))"
  shows "\<exists>s'. initialize_all b f cs s = (None, s') \<and> length s' = length s \<and>
           (\<forall>r < length s.
              shape (s' ! r) = shape (s ! r) \<and>
              (handle_ok (s ! r) \<longrightarrow> handle_ok (s' ! r)) \<and>
              dom (storage (s ! r)) \<subseteq> dom (storage (s' ! r)) \<and>
              (r \<in> snd ` set (params d) \<longrightarrow> set cs \<subseteq> dom (storage (s' ! r))))"
  using initialize_params_known [OF entries, of f cs] collect
  by (simp add: initialize_all_def ParameterDict_initialize_def)

lemma dense_initialized_after:
  assumes w: "weight m < length s" "shape (s' ! weight m) = Some [in_units m, units m]"
      "handle_ok (s' ! weight m)" "c \<in> dom (storage (s' ! weight m))"
    and b: "bias m < length s" "shape (s' ! bias m) = Some [units m]"
      "handle_ok (s' ! bias m)" "c \<in> dom (storage (s' ! bias m))"
    and len: "length s' = length s"
  shows "dense_initialized s' m c"
proof -
  from w(4) obtain tw where tw: "storage (s' ! weight m) c = Some tw" by auto
  from b(4) obtain tb where tb: "storage (s' ! bias m) c = Some tb" by auto
  from w(3) tw have "shape (s' ! weight m) = Some (nd_shape tw)"
    and lw: "length (nd_data tw) = prod_list (nd_shape tw)"
    by (simp_all add: handle_ok_def)
  with w(2) have sw: "nd_shape tw = [in_units m, units m]" by simp
  with lw have "length (nd_data tw) = in_units m * units m" by simp
  moreover from b(3) tb have "shape (s' ! bias m) = Some (nd_shape tb)"
    and lb: "length (nd_data tb) = prod_list (nd_shape tb)"
    by (simp_all add: handle_ok_def)
  with b(2) have sb: "nd_shape tb = [units m]" by simp
  with lb have "length (nd_data tb) = units m" by simp
  ultimately show ?thesis
    using w b len tw tb sw sb by (simp add: dense_initialized_def)
qed

lemma collect_params_MyDense_init:
  "collect_params (MyDense \<lparr>units = u, in_units = k,
       md_params = \<lparr>prefix = pfx, params = [(pfx @ ''weight'', a), (pfx @ ''bias'', b)]\<rparr>,
       weight = a, bias = b\<rparr>)
   = Inr \<lparr>prefix = pfx, params = [(pfx @ ''weight'', a), (pfx @ ''bias'', b)]\<rparr>"
  by (simp add: update_def ParameterDict_def)

lemma dense_example_initialized:
  assumes "0 < u" and "0 < k"
  shows "\<exists>m s1 s2. MyDense_init pfx u k xavier s = Inr (m, s1)
           \<and> units m = u \<and> in_units m = k
           \<and> initialize_all (MyDense m) f [c] s1 = (None, s2)
           \<and> dense_initialized s2 m c"
proof -
  let ?m = "\<lparr>units = u, in_units = k,
           md_params = \<lparr>prefix = pfx,
                        params = [(pfx @ ''weight'', length s), (pfx @ ''bias'', Suc (length s))]\<rparr>,
           weight = length s, bias = Suc (length s)\<rparr>"
  let ?pw = "Parameter (pfx @ ''weight'') True (Some [k, u]) (Some xavier)"
  let ?pb = "Parameter (pfx @ ''bias'') True (Some [u]) None"
  let ?s1 = "s @ [?pw, ?pb]"
  let ?d = "\<lparr>prefix = pfx, params = [(pfx @ ''weight'', length s), (pfx @ ''bias'', Suc (length s))]\<rparr>"
  have init: "MyDense_init pfx u k xavier s = Inr (?m, ?s1)"
    by (rule MyDense_init_result)
  have collect: "collect_params (MyDense ?m) = Inr ?d"
    by (rule collect_params_MyDense_init)
  have nw: "?s1 ! length s = ?pw" and nb: "?s1 ! Suc (length s) = ?pb"
    by (simp_all add: nth_append)
  have entries: "\<forall>(k', r) \<in> set (params ?d). r < length ?s1 \<and> shape_known (shape (?s1 ! r))"
    using assms nw nb by (simp add: Parameter_def shape_known_def)
  from initialize_all_known [OF collect entries, of f "[c]"] obtain s2
    where run: "initialize_all (MyDense ?m) f [c] ?s1 = (None, s2)"
      and len: "length s2 = length ?s1"
      and inv: "\<forall>r < length ?s1.
              shape (s2 ! r) = shape (?s1 ! r) \<and>
              (handle_ok (?s1 ! r) \<longrightarrow> handle_ok (s2 ! r)) \<and>
              dom (storage (?s1 ! r)) \<subseteq> dom (storage (s2 ! r)) \<and>
              (r \<in> snd ` set (params ?d) \<longrightarrow> set [c] \<subseteq> dom (storage (s2 ! r)))"
    by blast
  have "length s < length ?s1" by simp
  from inv [rule_format, OF this]
  have iw: "shape (s2 ! length s) = shape (?s1 ! length s)"
      "handle_ok (?s1 ! length s) \<longrightarrow> handle_ok (s2 ! length s)"
      "length s \<in> snd ` set (params ?d) \<longrightarrow> set [c] \<subseteq> dom (storage (s2 ! length s))"
    by blast+
  have "Suc (length s) < length ?s1" by simp
  from inv [rule_format, OF this]
  have ib: "shape (s2 ! Suc (length s)) = shape (?s1 ! Suc (length s))"
      "handle_ok (?s1 ! Suc (length s)) \<longrightarrow> handle_ok (s2 ! Suc (length s))"
      "Suc (length s) \<in> snd ` set (params ?d) \<longrightarrow> set [c] \<subseteq> dom (storage (s2 ! Suc (length s)))"
    by blast+
  have "dense_initialized s2 ?m c"
  proof (rule dense_initialized_after [where s = ?s1])
    show "weight ?m < length ?s1" by simp
    show "shape (s2 ! weight ?m) = Some [in_units ?m, units ?m]"
      using iw(1) nw by (simp add: Parameter_def)
    show "handle_ok (s2 ! weight ?m)"
      using iw(2) nw handle_ok_Parameter by simp
    show "c \<in> dom (storage (s2 ! weight ?m))"
      using iw(3) by simp
    show "bias ?m < length ?s1" by simp
    show "shape (s2 ! bias ?m) = Some [units ?m]"
      using ib(1) nb by (simp add: Parameter_def)
    show "handle_ok (s2 ! bias ?m)"
      using ib(2) nb handle_ok_Parameter by simp
    show "c \<in> dom (storage (s2 ! bias ?m))"
      using ib(3) by simp
    show "length s2 = length ?s1" by (rule len)
  qed
  with init run show ?thesis by force
qed

lemma layer_declared_known:
  assumes "layer_declared s m"
  shows "\<forall>(k, r) \<in> set (params (md_params m)). r < length s \<and> shape_known (shape (s ! r))"
proof -
  from assms have "shape (s ! weight m) = Some [in_units m, units m]"
    and "shape (s ! bias m) = Some [units m]"
    by (metis layer_declared_def Parameter_def parameter.select_convs(2))+
  with assms show ?thesis
    by (auto simp: layer_declared_def shape_known_def)
qed

lemma layer_initialized:
  assumes decl: "layer_declared s m"
    and len: "length s' = length s"
    and inv: "\<forall>r < length s.
              shape (s' ! r) = shape (s ! r) \<and>
              (handle_ok (s ! r) \<longrightarrow> handle_ok (s' ! r)) \<and>
              dom (storage (s ! r)) \<subseteq> dom (storage (s' ! r)) \<and>
              (r \<in> snd ` set es \<longrightarrow> set cs \<subseteq> dom (storage (s' ! r)))"
    and sub: "set (params (md_params m)) \<subseteq> set es" and c: "c \<in> set cs"
  shows "dense_initialized s' m c"
proof -
  from decl have w: "weight m < length s" and b: "bias m < length s"
    by (simp_all add: layer_declared_def)
  from decl have sw: "shape (s ! weight m) = Some [in_units m, units m]"
    and sb: "shape (s ! bias m) = Some [units m]"
    by (metis layer_declared_def Parameter_def parameter.select_convs(2))+
  from decl have ow: "handle_ok (s ! weight m)" and ob: "handle_ok (s ! bias m)"
    by (metis layer_declared_def handle_ok_Parameter)+
  from decl sub have mw: "weight m \<in> snd ` set es" and mb: "bias m \<in> snd ` set es"
    by (force simp: layer_declared_def)+
  from inv [rule_format, OF w] sw ow mw c
  have 1: "shape (s' ! weight m) = Some [in_units m, units m]" "handle_ok (s' ! weight m)"
    "c \<in> dom (storage (s' ! weight m))"
    by auto
  from inv [rule_format, OF b] sb ob mb c
  have 2: "shape (s' ! bias m) = Some [units m]" "handle_ok (s' ! bias m)"
    "c \<in> dom (storage (s' ! bias m))"
    by auto
  from dense_initialized_after [OF w 1 b 2 len] show ?thesis .
qed

lemma layer_declared_init:
  assumes "0 < u" and "0 < k"
  shows "\<exists>m. MyDense_init pfx u k xavier s =
             Inr (m, s @ [Parameter (pfx @ ''weight'') True (Some [k, u]) (Some xavier),
                          Parameter (pfx @ ''bias'') True (Some [u]) None])
           \<and> units m = u \<and> in_units m = k \<and> prefix (md_params m) = pfx
           \<and> weight m = length s \<and> bias m = Suc (length s)
           \<and> layer_declared (s @ [Parameter (pfx @ ''weight'') True (Some [k, u]) (Some xavier),
                                   Parameter (pfx @ ''bias'') True (Some [u]) None]) m"
  using assms
  by (simp add: MyDense_init_result layer_declared_def nth_append Parameter_def)

lemma layer_declared_extend: "layer_declared s m \<Longrightarrow> layer_declared (s @ t) m"
  by (simp add: layer_declared_def nth_append)

lemma build_net_result:
  "\<exists>l1 l2 l3 s3.
     build_net pfx xavier s =
       Inr (Sequential (ParameterDict pfx) [MyDense l1, MyDense l2, MyDense l3], s3)
     \<and> layer_declared s3 l1 \<and> layer_declared s3 l2 \<and> layer_declared s3 l3
     \<and> in_units l1 = 784 \<and> units l1 = 128 \<and> prefix (md_params l1) = pfx @ ''mydense0_''
     \<and> in_units l2 = 128 \<and> units l2 = 64 \<and> prefix (md_params l2) = pfx @ ''mydense1_''
     \<and> in_units l3 = 64 \<and> units l3 = 10 \<and> prefix (md_params l3) = pfx @ ''mydense2_''"
proof -
  let ?p1 = "[Parameter ((pfx @ ''mydense0_'') @ ''weight'') True (Some [784, 128]) (Some xavier),
              Parameter ((pfx @ ''mydense0_'') @ ''bias'') True (Some [128]) None]"
  let ?p2 = "[Parameter ((pfx @ ''mydense1_'') @ ''weight'') True (Some [128, 64]) (Some xavier),
              Parameter ((pfx @ ''mydense1_'') @ ''bias'') True (Some [64]) None]"
  let ?p3 = "[Parameter ((pfx @ ''mydense2_'') @ ''weight'') True (Some [64, 10]) (Some xavier),
              Parameter ((pfx @ ''mydense2_'') @ ''bias'') True (Some [10]) None]"
  from layer_declared_init [of 128 784 "pfx @ ''mydense0_''" xavier s] obtain l1
    where l1: "MyDense_init (pfx @ ''mydense0_'') 128 784 xavier s = Inr (l1, s @ ?p1)"
      "units l1 = 128" "in_units l1 = 784" "prefix (md_params l1) = pfx @ ''mydense0_''"
      "layer_declared (s @ ?p1) l1"
    by auto
  from layer_declared_init [of 64 128 "pfx @ ''mydense1_''" xavier "s @ ?p1"] obtain l2
    where l2: "MyDense_init (pfx @ ''mydense1_'') 64 128 xavier (s @ ?p1) = Inr (l2, (s @ ?p1) @ ?p2)"
      "units l2 = 64" "in_units l2 = 128" "prefix (md_params l2) = pfx @ ''mydense1_''"
      "layer_declared ((s @ ?p1) @ ?p2) l2"
    by auto
  from layer_declared_init [of 10 64 "pfx @ ''mydense2_''" xavier "(s @ ?p1) @ ?p2"] obtain l3
    where l3: "MyDense_init (pfx @ ''mydense2_'') 10 64 xavier ((s @ ?p1) @ ?p2)
                 = Inr (l3, ((s @ ?p1) @ ?p2) @ ?p3)"
      "units l3 = 10" "in_units l3 = 64" "prefix (md_params l3) = pfx @ ''mydense2_''"
      "layer_declared (((s @ ?p1) @ ?p2) @ ?p3) l3"
    by auto
  have run: "build_net pfx xavier s =
       Inr (Sequential (ParameterDict pfx) [MyDense l1, MyDense l2, MyDense l3],
            ((s @ ?p1) @ ?p2) @ ?p3)"
    unfolding build_net_def using l1(1) l2(1) l3(1)
    by (simp add: Sequential_init_def)
  have d1: "layer_declared (((s @ ?p1) @ ?p2) @ ?p3) l1"
    using layer_declared_extend [OF layer_declared_extend [OF l1(5)]] .
  have d2: "layer_declared (((s @ ?p1) @ ?p2) @ ?p3) l2"
    using layer_declared_extend [OF l2(5)] .
  from run d1 d2 l1 l2 l3 show ?thesis by blast
qed

lemma collect_params_three_layers:
  assumes "layer_declared s l1" "layer_declared s l2" "layer_declared s l3"
    and "prefix (md_params l1) = pfx @ ''mydense0_''"
    and "prefix (md_params l2) = pfx @ ''mydense1_''"
    and "prefix (md_params l3) = pfx @ ''mydense2_''"
  shows "collect_params (Sequential (ParameterDict pfx) [MyDense l1, MyDense l2, MyDense l3])
         = Inr \<lparr>prefix = pfx,
                params = params (md_params l1) @ params (md_params l2) @ params (md_params l3)\<rparr>"
proof -
  from assms have p1: "params (md_params l1) =
      [(pfx @ ''mydense0_weight'', weight l1), (pfx @ ''mydense0_bias'', bias l1)]"
    and p2: "params (md_params l2) =
      [(pfx @ ''mydense1_weight'', weight l2), (pfx @ ''mydense1_bias'', bias l2)]"
    and p3: "params (md_params l3) =
      [(pfx @ ''mydense2_weight'', weight l3), (pfx @ ''mydense2_bias'', bias l3)]"
    by (simp_all add: layer_declared_def)
  show ?thesis
    by (simp add: update_def ParameterDict_def p1 p2 p3)
qed

lemma forward_three_layers:
  assumes i1: "dense_initialized s l1 c" and i2: "dense_initialized s l2 c"
    and i3: "dense_initialized s l3 c"
    and chain: "units l1 = in_units l2" "units l2 = in_units l3"
    and x: "nd_shape x = [n, in_units l1]" "nd_context x = c"
  shows "\<exists>y. forward s (Sequential d [MyDense l1, MyDense l2, MyDense l3]) x = Inr y
            \<and> nd_shape y = [n, units l3] \<and> (\<forall>v \<in> set (nd_data y). 0 \<le> v)"
proof -
  from MyDense_forward_props [of s l1 x "[n]"] i1 x obtain y1
    where y1: "MyDense_forward s l1 x = Inr y1" "nd_shape y1 = [n] @ [units l1]"
      "nd_context y1 = c"
    by auto
  from MyDense_forward_props [of s l2 y1 "[n]"] i2 y1 chain obtain y2
    where y2: "MyDense_forward s l2 y1 = Inr y2" "nd_shape y2 = [n] @ [units l2]"
      "nd_context y2 = c"
    by auto
  from MyDense_forward_props [of s l3 y2 "[n]"] i3 y2 chain obtain y3
    where y3: "MyDense_forward s l3 y2 = Inr y3" "nd_shape y3 = [n] @ [units l3]"
      "\<forall>v \<in> set (nd_data y3). 0 \<le> v"
    by auto
  from y1 y2 y3 show ?thesis by simp
qed

lemma net_initialized:
  "\<exists>l1 l2 l3 s1 s2.
     build_net pfx xavier s =
       Inr (Sequential (ParameterDict pfx) [MyDense l1, MyDense l2, MyDense l3], s1)
     \<and> initialize_all (Sequential (ParameterDict pfx) [MyDense l1, MyDense l2, MyDense l3])
          f [c] s1 = (None, s2)
     \<and> dense_initialized s2 l1 c \<and> dense_initialized s2 l2 c \<and> dense_initialized s2 l3 c
     \<and> in_units l1 = 784 \<and> units l1 = 128
     \<and> in_units l2 = 128 \<and> units l2 = 64
     \<and> in_units l3 = 64 \<and> units l3 = 10"
proof -
  from build_net_result [of pfx xavier s] obtain l1 l2 l3 s1
    where run: "build_net pfx xavier s =
        Inr (Sequential (ParameterDict pfx) [MyDense l1, MyDense l2, MyDense l3], s1)"
      and d: "layer_declared s1 l1" "layer_declared s1 l2" "layer_declared s1 l3"
      and dims: "in_units l1 = 784" "units l1 = 128" "in_units l2 = 128" "units l2 = 64"
        "in_units l3 = 64" "units l3 = 10"
      and pf: "prefix (md_params l1) = pfx @ ''mydense0_''"
        "prefix (md_params l2) = pfx @ ''mydense1_''"
        "prefix (md_params l3) = pfx @ ''mydense2_''"
    by blast
  let ?net = "Sequential (ParameterDict pfx) [MyDense l1, MyDense l2, MyDense l3]"
  let ?d = "\<lparr>prefix = pfx,
             params = params (md_params l1) @ params (md_params l2) @ params (md_params l3)\<rparr>"
  have collect: "collect_params ?net = Inr ?d"
    by (rule collect_params_three_layers [OF d pf])
  have entries: "\<forall>(k, r) \<in> set (params ?d). r < length s1 \<and> shape_known (shape (s1 ! r))"
    using layer_declared_known [OF d(1)] layer_declared_known [OF d(2)]
      layer_declared_known [OF d(3)]
    by auto
  from initialize_all_known [OF collect entries, of f "[c]"] obtain s2
    where init: "initialize_all ?net f [c] s1 = (None, s2)"
      and len: "length s2 = length s1"
      and inv: "\<forall>r < length s1.
              shape (s2 ! r) = shape (s1 ! r) \<and>
              (handle_ok (s1 ! r) \<longrightarrow> handle_ok (s2 ! r)) \<and>
              dom (storage (s1 ! r)) \<subseteq> dom (storage (s2 ! r)) \<and>
              (r \<in> snd ` set (params ?d) \<longrightarrow> set [c] \<subseteq> dom (storage (s2 ! r)))"
    by blast
  have i1: "dense_initialized s2 l1 c"
    by (rule layer_initialized [OF d(1) len inv]) auto
  have i2: "dense_initialized s2 l2 c"
    by (rule layer_initialized [OF d(2) len inv]) auto
  have i3: "dense_initialized s2 l3 c"
    by (rule layer_initialized [OF d(3) len inv]) auto
  from run init i1 i2 i3 dims show ?thesis by blast
qed

lemma forward_first_layer_mismatch:
  assumes "dense_initialized s l1 (nd_context x)"
    and "nd_shape x \<noteq> []" and "last (nd_shape x) \<noteq> in_units l1"
  shows "forward s (Sequential d (MyDense l1 # rest)) x = Inl ShapeMismatchError"
  using MyDense_forward_mismatch [OF assms] by simp

lemma initialize_all_first_unknown:
  assumes collect: "collect_params b = Inr d" and first: "params d = (k, r) # rest"
    and unknown: "\<not> shape_known (shape (s ! r))" and empty: "storage (s ! r) = Map.empty"
  shows "initialize_all b f (c # cs) s = (Some ShapeUndefinedError, s)"
  using collect first initialize_shape_unknown [OF unknown empty, of "c # cs" None f False]
  by (simp add: initialize_all_def ParameterDict_initialize_def)

section \<open>MyDense with in_units = 0\<close>

text \<open>
  Claim C4, amended. A \<open>MyDense\<close> block constructed with \<open>in_units = 0\<close> declares its
  weight with the shape \<open>(0, units)\<close>, and no forward call infers the missing extent:
  initialising the block fails with ShapeUndefinedError and allocates nothing, and every
  forward call, whatever the shape of its input, fails with UninitializedError.
\<close>

theorem in_units_zero_not_inferred:
  assumes "MyDense_init pfx u 0 xavier s = Inr (m, s1)"
  shows "shape (s1 ! weight m) = Some [0, u]
       \<and> (\<forall>f c cs. initialize_all (MyDense m) f (c # cs) s1 = (Some ShapeUndefinedError, s1))
       \<and> (\<forall>x. forward s1 (MyDense m) x = Inl UninitializedError)"
proof -
  let ?pw = "Parameter (pfx @ ''weight'') True (Some [0, u]) (Some xavier)"
  let ?pb = "Parameter (pfx @ ''bias'') True (Some [u]) None"
  from assms have m: "m = \<lparr>units = u, in_units = 0,
           md_params = \<lparr>prefix = pfx,
                        params = [(pfx @ ''weight'', length s), (pfx @ ''bias'', Suc (length s))]\<rparr>,
           weight = length s, bias = Suc (length s)\<rparr>"
    and s1: "s1 = s @ [?pw, ?pb]"
    by (simp_all add: MyDense_init_result)
  have w: "s1 ! weight m = ?pw"
    by (simp add: m s1)
  have shp: "shape (s1 ! weight m) = Some [0, u]"
    by (simp add: w Parameter_def)
  have collect: "collect_params (MyDense m) =
      Inr \<lparr>prefix = pfx, params = [(pfx @ ''weight'', length s), (pfx @ ''bias'', Suc (length s))]\<rparr>"
    unfolding m by (rule collect_params_MyDense_init)
  have unknown: "\<not> shape_known (shape (s1 ! length s))"
    using w m by (simp add: Parameter_def shape_known_def)
  have empty: "storage (s1 ! length s) = Map.empty"
    using w m by (simp add: Parameter_def)
  have init: "initialize_all (MyDense m) f (c # cs) s1 = (Some ShapeUndefinedError, s1)" for f c cs
    by (rule initialize_all_first_unknown [OF collect _ unknown empty]) simp
  have fw: "forward s1 (MyDense m) x = Inl UninitializedError" for x
    using MyDense_forward_uninitialized [of s1 m x] w
    by (simp add: Parameter_def)
  from shp init fw show ?thesis by blast
qed

theorem in_units_zero_not_inferred_witness:
  "MyDense_init ''mydense0_'' 20 0 (\<lambda>ds c i. 0) [] =
     Inr (\<lparr>units = 20, in_units = 0,
           md_params = \<lparr>prefix = ''mydense0_'',
                        params = [(''mydense0_weight'', 0), (''mydense0_bias'', 1)]\<rparr>,
           weight = 0, bias = 1\<rparr>,
          [Parameter ''mydense0_weight'' True (Some [0, 20]) (Some (\<lambda>ds c i. 0)),
           Parameter ''mydense0_bias'' True (Some [20]) None])
   \<and> forward [Parameter ''mydense0_weight'' True (Some [0, 20]) (Some (\<lambda>ds c i. 0)),
               Parameter ''mydense0_bias'' True (Some [20]) None]
        (MyDense \<lparr>units = 20, in_units = 0,
           md_params = \<lparr>prefix = ''mydense0_'',
                        params = [(''mydense0_weight'', 0), (''mydense0_bias'', 1)]\<rparr>,
           weight = 0, bias = 1\<rparr>)
        (nd_ones [2, 784] (cpu 0)) = Inl UninitializedError"
proof -
  have run: "MyDense_init ''mydense0_'' 20 0 (\<lambda>ds c i. 0) [] =
     Inr (\<lparr>units = 20, in_units = 0,
           md_params = \<lparr>prefix = ''mydense0_'',
                        params = [(''mydense0_weight'', 0), (''mydense0_bias'', 1)]\<rparr>,
           weight = 0, bias = 1\<rparr>,
          [Parameter ''mydense0_weight'' True (Some [0, 20]) (Some (\<lambda>ds c i. 0)),
           Parameter ''mydense0_bias'' True (Some [20]) None])"
    by (simp add: MyDense_init_result)
  from in_units_zero_not_inferred [OF run] run show ?thesis by blast
qed

text \<open>
  The claim as first stated fails at \<open>MyDense(20, in_units=0)\<close>: initialisation raises,
  the forward call on an input of shape \<open>(2, 784)\<close> raises UninitializedError and
  leaves the declared shape \<open>(0, 20)\<close>, and the forward call on an input of shape
  \<open>(2, 10)\<close> raises UninitializedError, not ShapeMismatchError.
\<close>

theorem in_units_zero_counterexample:
  "(case MyDense_init ''mydense0_'' 20 0 (\<lambda>ds c i. 0) [] of
      Inl e \<Rightarrow> False
    | Inr (m, s1) \<Rightarrow>
        initialize_all (MyDense m) (\<lambda>ds c i. 0) [cpu 0] s1 = (Some ShapeUndefinedError, s1)
        \<and> forward s1 (MyDense m) (nd_ones [2, 784] (cpu 0)) = Inl UninitializedError
        \<and> shape (s1 ! weight m) = Some [0, 20]
        \<and> forward s1 (MyDense m) (nd_ones [2, 10] (cpu 0)) = Inl UninitializedError
        \<and> forward s1 (MyDense m) (nd_ones [2, 10] (cpu 0)) \<noteq> Inl ShapeMismatchError)"
  by (simp add: MyDense_init_result MyDense_forward_def Parameter_data_def Parameter_def
      nd_ones_def initialize_all_def update_def ParameterDict_def ParameterDict_initialize_def
      initialize_def initialize_ctx_def shape_known_def)

section \<open>The two examples end to end\<close>

text \<open>
  Claim C8, amended. The first example, \<open>MyDense(20, in_units=10)\<close> initialised and run
  on \<open>nd.ones(shape=(2,10))\<close>, gives an output of shape \<open>(2, 20)\<close> with all values at
  least 0. The network of three layers (784 to 128, 128 to 64, 64 to 10), initialised,
  maps every input of shape \<open>(n, 784)\<close> to an output of shape \<open>(n, 10)\<close> with all
  values at least 0, and fails with a shape error on the input of shape \<open>(2, 10)\<close>.
\<close>

theorem dense_examples:
  "(\<exists>y. dense_example xavier f s = Inr y \<and> nd_shape y = [2, 20]
        \<and> (\<forall>v \<in> set (nd_data y). 0 \<le> v))
   \<and> (\<exists>net s1 s2.
        build_net pfx xavier s = Inr (net, s1)
        \<and> initialize_all net f [c] s1 = (None, s2)
        \<and> (\<forall>x n. nd_shape x = [n, 784] \<and> nd_context x = c \<longrightarrow>
              (\<exists>y. forward s2 net x = Inr y \<and> nd_shape y = [n, 10]
                   \<and> (\<forall>v \<in> set (nd_data y). 0 \<le> v)))
        \<and> forward s2 net (nd_ones [2, 10] c) = Inl ShapeMismatchError)"
proof
  from dense_example_initialized [of 20 10 "''mydense0_''" xavier s f "cpu 0"] obtain m s1 s2
    where m: "MyDense_init ''mydense0_'' 20 10 xavier s = Inr (m, s1)"
      "units m = 20" "in_units m = 10"
      "initialize_all (MyDense m) f [cpu 0] s1 = (None, s2)"
      "dense_initialized s2 m (cpu 0)"
    by auto
  from MyDense_forward_props [of s2 m "nd_ones [2, 10] (cpu 0)" "[2]"] m obtain y
    where "MyDense_forward s2 m (nd_ones [2, 10] (cpu 0)) = Inr y"
      "nd_shape y = [2, 20]" "\<forall>v \<in> set (nd_data y). 0 \<le> v"
    by (auto simp: nd_ones_def)
  with m show "\<exists>y. dense_example xavier f s = Inr y \<and> nd_shape y = [2, 20]
        \<and> (\<forall>v \<in> set (nd_data y). 0 \<le> v)"
    by (simp add: dense_example_def)
next
  from net_initialized [of pfx xavier s f c] obtain l1 l2 l3 s1 s2
    where run: "build_net pfx xavier s =
        Inr (Sequential (ParameterDict pfx) [MyDense l1, MyDense l2, MyDense l3], s1)"
      and init: "initialize_all (Sequential (ParameterDict pfx) [MyDense l1, MyDense l2, MyDense l3])
          f [c] s1 = (None, s2)"
      and i: "dense_initialized s2 l1 c" "dense_initialized s2 l2 c" "dense_initialized s2 l3 c"
      and dims: "in_units l1 = 784" "units l1 = 128" "in_units l2 = 128" "units l2 = 64"
        "in_units l3 = 64" "units l3 = 10"
    by blast
  let ?net = "Sequential (ParameterDict pfx) [MyDense l1, MyDense l2, MyDense l3]"
  have good: "\<exists>y. forward s2 ?net x = Inr y \<and> nd_shape y = [n, 10]
                   \<and> (\<forall>v \<in> set (nd_data y). 0 \<le> v)"
    if "nd_shape x = [n, 784]" and "nd_context x = c" for x n
    using forward_three_layers [of s2 l1 c l2 l3 x n "ParameterDict pfx"] i dims that
    by simp
  have bad: "forward s2 ?net (nd_ones [2, 10] c) = Inl ShapeMismatchError"
    using forward_first_layer_mismatch [of s2 l1 "nd_ones [2, 10] c"] i(1) dims
    by (simp add: nd_ones_def)
  from run init good bad
  show "\<exists>net s1 s2.
        build_net pfx xavier s = Inr (net, s1)
        \<and> initialize_all net f [c] s1 = (None, s2)
        \<and> (\<forall>x n. nd_shape x = [n, 784] \<and> nd_context x = c \<longrightarrow>
              (\<exists>y. forward s2 net x = Inr y \<and> nd_shape y = [n, 10]
                   \<and> (\<forall>v \<in> set (nd_data y). 0 \<le> v)))
        \<and> forward s2 net (nd_ones [2, 10] c) = Inl ShapeMismatchError"
    by blast
qed

theorem dense_examples_witness:
  "(\<exists>y. dense_example (\<lambda>ds c i. 0) (\<lambda>ds c i. 0) [] = Inr y \<and> nd_shape y = [2, 20])
   \<and> (\<exists>net s1 s2.
        build_net ''sequential1_'' (\<lambda>ds c i. 0) [] = Inr (net, s1)
        \<and> initialize_all net (\<lambda>ds c i. 0) [cpu 0] s1 = (None, s2)
        \<and> (\<exists>y. forward s2 net (nd_ones [2, 784] (cpu 0)) = Inr y \<and> nd_shape y = [2, 10])
        \<and> forward s2 net (nd_ones [2, 10] (cpu 0)) = Inl ShapeMismatchError)"
proof -
  have x: "nd_shape (nd_ones [2, 784] (cpu 0)) = [2, 784]
           \<and> nd_context (nd_ones [2, 784] (cpu 0)) = cpu 0"
    by (simp add: nd_ones_def)
  from dense_examples [of "\<lambda>ds c i. 0" "\<lambda>ds c i. 0" "[]" "''sequential1_''" "cpu 0"] x
  show ?thesis by blast
qed

text \<open>
  The claim as first stated fails: the network of three layers gives no output of shape
  \<open>(2, 20)\<close>, neither on the input of shape \<open>(2, 10)\<close>, where it raises, nor on an
  input of shape \<open>(2, 784)\<close>, where the output has shape \<open>(2, 10)\<close>.
\<close>

theorem three_layers_counterexample:
  "\<not> (\<exists>net s1 s2 y.
        build_net ''sequential1_'' (\<lambda>ds c i. 0) [] = Inr (net, s1)
        \<and> initialize_all net (\<lambda>ds c i. 0) [cpu 0] s1 = (None, s2)
        \<and> forward s2 net (nd_ones [2, 10] (cpu 0)) = Inr y \<and> nd_shape y = [2, 20])
   \<and> \<not> (\<exists>net s1 s2 y.
        build_net ''sequential1_'' (\<lambda>ds c i. 0) [] = Inr (net, s1)
        \<and> initialize_all net (\<lambda>ds c i. 0) [cpu 0] s1 = (None, s2)
        \<and> forward s2 net (nd_ones [2, 784] (cpu 0)) = Inr y \<and> nd_shape y = [2, 20])"
proof -
  from net_initialized [of "''sequential1_''" "\<lambda>ds c i. 0" "[]" "\<lambda>ds c i. 0" "cpu 0"]
  obtain l1 l2 l3 s1 s2
    where run: "build_net ''sequential1_'' (\<lambda>ds c i. 0) [] =
        Inr (Sequential (ParameterDict ''sequential1_'') [MyDense l1, MyDense l2, MyDense l3], s1)"
      and init: "initialize_all
          (Sequential (ParameterDict ''sequential1_'') [MyDense l1, MyDense l2, MyDense l3])
          (\<lambda>ds c i. 0) [cpu 0] s1 = (None, s2)"
      and i: "dense_initialized s2 l1 (cpu 0)" "dense_initialized s2 l2 (cpu 0)"
        "dense_initialized s2 l3 (cpu 0)"
      and dims: "in_units l1 = 784" "units l1 = 128" "in_units l2 = 128" "units l2 = 64"
        "in_units l3 = 64" "units l3 = 10"
    by blast
  let ?net = "Sequential (ParameterDict ''sequential1_'') [MyDense l1, MyDense l2, MyDense l3]"
  have bad: "forward s2 ?net (nd_ones [2, 10] (cpu 0)) = Inl ShapeMismatchError"
    using forward_first_layer_mismatch [of s2 l1 "nd_ones [2, 10] (cpu 0)"] i(1) dims
    by (simp add: nd_ones_def)
  from forward_three_layers [of s2 l1 "cpu 0" l2 l3 "nd_ones [2, 784] (cpu 0)" 2
      "ParameterDict ''sequential1_''"] i dims
  obtain y where good: "forward s2 ?net (nd_ones [2, 784] (cpu 0)) = Inr y" "nd_shape y = [2, 10]"
    by (auto simp: nd_ones_def)
  from run init bad good show ?thesis by auto
qed

section \<open>The moving loss of the training loop\<close>

lemma train_batch_mean_step:
  "train_batch ext ctx net (data, label) s =
     (case reshape_rows (as_in_context data ctx) 784 of
        Inl e \<Rightarrow> Inl e
      | Inr d \<Rightarrow>
          (case forward s net d of
             Inl e \<Rightarrow> Inl e
           | Inr output \<Rightarrow> Inr (mean_step ext ctx net d label s output)))"
  by (simp add: train_batch_def mean_step_def mean_loss_def asscalar_def nd_mean_def Let_def
      split: sum.splits)

lemma batch_loop_trace:
  "batch_loop ext ctx net i bs (s, ml) = Inr (s', ml') \<Longrightarrow>
   length (pass_trace ext ctx net bs s) = length bs \<and>
   s' = (if pass_trace ext ctx net bs s = [] then s else fst (last (pass_trace ext ctx net bs s))) \<and>
   ml' = (if i = 0 then moving_average_spec ml (map snd (pass_trace ext ctx net bs s))
          else foldl (\<lambda>m c. 0.99 * m + 0.01 * c) ml (map snd (pass_trace ext ctx net bs s)))"
proof (induction bs arbitrary: i s ml)
  case Nil
  then show ?case by (simp add: moving_average_spec_def)
next
  case (Cons b bs)
  obtain data label where b: "b = (data, label)" by (cases b)
  from Cons.prems b obtain s1 ce where
    step: "train_batch ext ctx net (data, label) s = Inr (s1, ce)"
    and rest: "batch_loop ext ctx net (Suc i) bs
                 (s1, if i = 0 then ce else 0.99 * ml + 0.01 * ce) = Inr (s', ml')"
    by (auto split: sum.splits prod.splits)
  from step obtain d y where d: "reshape_rows (as_in_context data ctx) 784 = Inr d"
    and out: "forward s net d = Inr y"
    and ms: "mean_step ext ctx net d label s y = (s1, ce)"
    by (auto simp: train_batch_mean_step split: sum.splits)
  have tr: "pass_trace ext ctx net (b # bs) s = (s1, ce) # pass_trace ext ctx net bs s1"
    using b d out ms by simp
  from Cons.IH [OF rest] tr show ?case
    by (simp add: moving_average_spec_def)
qed

lemma batch_loop_append:
  "batch_loop ext ctx net i (bs1 @ bs2) st =
     (case batch_loop ext ctx net i bs1 st of
        Inl e \<Rightarrow> Inl e
      | Inr st' \<Rightarrow> batch_loop ext ctx net (i + length bs1) bs2 st')"
proof (induction bs1 arbitrary: i st)
  case Nil
  then show ?case by (cases st) simp
next
  case (Cons b bs1)
  obtain s ml where st: "st = (s, ml)" by (cases st)
  show ?case
    using Cons.IH st by (simp split: sum.splits prod.splits)
qed

lemma pass_trace_take:
  "pass_trace ext ctx net (take k bs) s = take k (pass_trace ext ctx net bs s)"
proof (induction bs arbitrary: k s)
  case Nil
  then show ?case by simp
next
  case (Cons b bs)
  obtain data label where b: "b = (data, label)" by (cases b)
  show ?case
  proof (cases k)
    case 0
    then show ?thesis by simp
  next
    case (Suc j)
    with Cons.IH b show ?thesis
      by (simp split: sum.splits)
  qed
qed

lemma batch_loop_prefix:
  assumes run: "batch_loop ext ctx net 0 bs (s, ml) = Inr r" and k: "k \<le> length bs"
  shows "\<exists>s_k. batch_loop ext ctx net 0 (take k bs) (s, ml)
           = Inr (s_k, moving_average_spec ml (take k (map snd (pass_trace ext ctx net bs s))))"
proof -
  from run have "(case batch_loop ext ctx net 0 (take k bs) (s, ml) of
        Inl e \<Rightarrow> Inl e
      | Inr st' \<Rightarrow> batch_loop ext ctx net (0 + length (take k bs)) (drop k bs) st') = Inr r"
    using batch_loop_append [of ext ctx net 0 "take k bs" "drop k bs" "(s, ml)"] by simp
  then obtain st where st: "batch_loop ext ctx net 0 (take k bs) (s, ml) = Inr st"
    by (cases "batch_loop ext ctx net 0 (take k bs) (s, ml)") auto
  obtain s_k ml_k where p: "st = (s_k, ml_k)" by (cases st)
  from batch_loop_trace [of ext ctx net 0 "take k bs" s ml s_k ml_k] st p
  have "ml_k = moving_average_spec ml (take k (map snd (pass_trace ext ctx net bs s)))"
    by (simp add: pass_trace_take take_map)
  with st p show ?thesis by simp
qed

lemma moving_average_spec_step:
  "k < length ls \<Longrightarrow>
   moving_average_spec previous (take (Suc k) ls) =
     (if k = 0 then ls ! 0
      else 0.99 * moving_average_spec previous (take k ls) + 0.01 * ls ! k)"
proof (cases ls)
  case Nil
  assume "k < length ls"
  with Nil show ?thesis by simp
next
  case (Cons l rest)
  assume k: "k < length ls"
  show ?thesis
  proof (cases k)
    case 0
    with Cons show ?thesis by (simp add: moving_average_spec_def)
  next
    case (Suc j)
    with k Cons have j: "j < length rest" by simp
    have "take (Suc j) rest = take j rest @ [rest ! j]"
      using j by (simp add: take_Suc_conv_app_nth)
    with Cons Suc show ?thesis
      by (simp add: moving_average_spec_def)
  qed
qed

lemma training_loop_reports:
  "training_loop ext ctx net e its (s, ml, metric) = Inr (reports, final) \<Longrightarrow>
   map (\<lambda>r. fst (snd r)) reports = reported_losses ext ctx net its s ml \<and>
   map fst reports = [e..<e + length its]"
proof (induction its arbitrary: e s ml metric reports)
  case Nil
  then show ?case by simp
next
  case (Cons it its)
  from Cons.prems obtain s1 ml1 where
    bl: "batch_loop ext ctx net 0 (train_iter it) (s, ml) = Inr (s1, ml1)"
    by (auto split: sum.splits prod.splits)
  from Cons.prems bl obtain metric2 train_accuracy test_accuracy reports' where
    rest: "training_loop ext ctx net (Suc e) its (s1, ml1, metric2) = Inr (reports', final)"
    and rep: "reports = (e, ml1, train_accuracy, test_accuracy) # reports'"
    by (auto split: sum.splits prod.splits)
  note tr = batch_loop_trace [OF bl]
  from Cons.IH [OF rest] rep tr show ?case
    by (simp add: Let_def upt_rec)
qed

text \<open>
  Claim C9, amended. In the training driver the moving loss an epoch reports is the
  moving average of the mean losses of that epoch's batches alone, in order: the guard
  \<open>i == 0\<close> is inside the loop over the epochs, so the pass of every epoch seeds the
  variable anew with the mean loss of its own first batch. Whenever the driver returns,
  the losses it reports are those of the specification's side, epoch after epoch. Inside
  one pass, after the first \<open>k\<close> batches the variable holds the average of the first
  \<open>k\<close> mean losses: after the first batch that batch's mean loss (the sum of the
  entries of the loss over their number), and after every later batch of the pass 0.99
  times the previous value plus 0.01 times the batch's mean loss. The arithmetic is that
  of the real numbers.
\<close>

theorem moving_loss_reseeded:
  assumes "training_loop ext ctx net e its (s, ml, metric) = Inr (reports, final)"
  shows "map (\<lambda>r. fst (snd r)) reports = reported_losses ext ctx net its s ml
       \<and> map fst reports = [e..<e + length its]
       \<and> (\<forall>bs s0 ml0 r. batch_loop ext ctx net 0 bs (s0, ml0) = Inr r \<longrightarrow>
            length (pass_trace ext ctx net bs s0) = length bs \<and>
            (\<forall>k \<le> length bs. \<exists>s_k.
               batch_loop ext ctx net 0 (take k bs) (s0, ml0) =
                 Inr (s_k, moving_average_spec ml0
                             (take k (map snd (pass_trace ext ctx net bs s0))))))
       \<and> (\<forall>previous ls k. k < length ls \<longrightarrow>
            moving_average_spec previous (take (Suc k) ls) =
              (if k = 0 then ls ! 0
               else 0.99 * moving_average_spec previous (take k ls) + 0.01 * ls ! k))"
proof -
  note reports = training_loop_reports [OF assms]
  have pass: "length (pass_trace ext ctx net bs s0) = length bs \<and>
            (\<forall>k \<le> length bs. \<exists>s_k.
               batch_loop ext ctx net 0 (take k bs) (s0, ml0) =
                 Inr (s_k, moving_average_spec ml0
                             (take k (map snd (pass_trace ext ctx net bs s0)))))"
    if run: "batch_loop ext ctx net 0 bs (s0, ml0) = Inr r" for bs s0 ml0 r
  proof -
    obtain s' ml' where r: "r = (s', ml')" by (cases r)
    from batch_loop_trace [of ext ctx net 0 bs s0 ml0 s' ml'] run r
    have "length (pass_trace ext ctx net bs s0) = length bs" by simp
    with batch_loop_prefix [OF run] show ?thesis by blast
  qed
  from reports pass moving_average_spec_step show ?thesis by blast
qed

theorem moving_loss_reseeded_witness:
  "training_loop \<lparr>loss = (\<lambda>output label. label), backward_step = (\<lambda>net s d l n. s)\<rparr>
      (cpu 0) (Sequential_init ''net_'') 0
      [\<lparr>train_iter =
          [(\<lparr>nd_shape = [2, 784], nd_data = replicate 1568 0, nd_context = cpu 0\<rparr>,
            \<lparr>nd_shape = [2], nd_data = [1, 3], nd_context = cpu 0\<rparr>),
           (\<lparr>nd_shape = [2, 784], nd_data = replicate 1568 0, nd_context = cpu 0\<rparr>,
            \<lparr>nd_shape = [2], nd_data = [3, 5], nd_context = cpu 0\<rparr>)],
        test_eval_iter = [], train_eval_iter = []\<rparr>,
       \<lparr>train_iter =
          [(\<lparr>nd_shape = [2, 784], nd_data = replicate 1568 0, nd_context = cpu 0\<rparr>,
            \<lparr>nd_shape = [2], nd_data = [5, 7], nd_context = cpu 0\<rparr>),
           (\<lparr>nd_shape = [2, 784], nd_data = replicate 1568 0, nd_context = cpu 0\<rparr>,
            \<lparr>nd_shape = [2], nd_data = [7, 9], nd_context = cpu 0\<rparr>)],
        test_eval_iter = [], train_eval_iter = []\<rparr>]
      ([], 0, Accuracy)
    = Inr ([(0, 2.02, None, None), (1, 6.02, None, None)], ([], 6.02, Accuracy))
   \<and> reported_losses \<lparr>loss = (\<lambda>output label. label), backward_step = (\<lambda>net s d l n. s)\<rparr>
      (cpu 0) (Sequential_init ''net_'')
      [\<lparr>train_iter =
          [(\<lparr>nd_shape = [2, 784], nd_data = replicate 1568 0, nd_context = cpu 0\<rparr>,
            \<lparr>nd_shape = [2], nd_data = [1, 3], nd_context = cpu 0\<rparr>),
           (\<lparr>nd_shape = [2, 784], nd_data = replicate 1568 0, nd_context = cpu 0\<rparr>,
            \<lparr>nd_shape = [2], nd_data = [3, 5], nd_context = cpu 0\<rparr>)],
        test_eval_iter = [], train_eval_iter = []\<rparr>,
       \<lparr>train_iter =
          [(\<lparr>nd_shape = [2, 784], nd_data = replicate 1568 0, nd_context = cpu 0\<rparr>,
            \<lparr>nd_shape = [2], nd_data = [5, 7], nd_context = cpu 0\<rparr>),
           (\<lparr>nd_shape = [2, 784], nd_data = replicate 1568 0, nd_context = cpu 0\<rparr>,
            \<lparr>nd_shape = [2], nd_data = [7, 9], nd_context = cpu 0\<rparr>)],
        test_eval_iter = [], train_eval_iter = []\<rparr>] [] 0 = [2.02, 6.02]"
proof -
  have run: "training_loop \<lparr>loss = (\<lambda>output label. label), backward_step = (\<lambda>net s d l n. s)\<rparr>
      (cpu 0) (Sequential_init ''net_'') 0
      [\<lparr>train_iter =
          [(\<lparr>nd_shape = [2, 784], nd_data = replicate 1568 0, nd_context = cpu 0\<rparr>,
            \<lparr>nd_shape = [2], nd_data = [1, 3], nd_context = cpu 0\<rparr>),
           (\<lparr>nd_shape = [2, 784], nd_data = replicate 1568 0, nd_context = cpu 0\<rparr>,
            \<lparr>nd_shape = [2], nd_data = [3, 5], nd_context = cpu 0\<rparr>)],
        test_eval_iter = [], train_eval_iter = []\<rparr>,
       \<lparr>train_iter =
          [(\<lparr>nd_shape = [2, 784], nd_data = replicate 1568 0, nd_context = cpu 0\<rparr>,
            \<lparr>nd_shape = [2], nd_data = [5, 7], nd_context = cpu 0\<rparr>),
           (\<lparr>nd_shape = [2, 784], nd_data = replicate 1568 0, nd_context = cpu 0\<rparr>,
            \<lparr>nd_shape = [2], nd_data = [7, 9], nd_context = cpu 0\<rparr>)],
        test_eval_iter = [], train_eval_iter = []\<rparr>]
      ([], 0, Accuracy)
    = Inr ([(0, 2.02, None, None), (1, 6.02, None, None)], ([], 6.02, Accuracy))"
    by (simp add: train_batch_def reshape_rows_def as_in_context_def Sequential_init_def
        evaluate_accuracy_def Accuracy_get_def Accuracy_def asscalar_def nd_mean_def)
  from moving_loss_reseeded [OF run, THEN conjunct1] show ?thesis
    using run by simp
qed

text \<open>
  The claim as first stated, with one seed and the recurrence at every later batch, fails
  at two epochs of one batch each with the mean losses 3 and 5: the second epoch reports
  5, the mean loss of its own batch, and not \<open>0.99 * 3 + 0.01 * 5\<close>.
\<close>

theorem moving_loss_single_seed_counterexample:
  "training_loop \<lparr>loss = (\<lambda>output label. label), backward_step = (\<lambda>net s d l n. s)\<rparr>
      (cpu 0) (Sequential_init ''net_'') 0
      [\<lparr>train_iter =
          [(\<lparr>nd_shape = [2, 784], nd_data = replicate 1568 0, nd_context = cpu 0\<rparr>,
            \<lparr>nd_shape = [2], nd_data = [2, 4], nd_context = cpu 0\<rparr>)],
        test_eval_iter = [], train_eval_iter = []\<rparr>,
       \<lparr>train_iter =
          [(\<lparr>nd_shape = [2, 784], nd_data = replicate 1568 0, nd_context = cpu 0\<rparr>,
            \<lparr>nd_shape = [2], nd_data = [4, 6], nd_context = cpu 0\<rparr>)],
        test_eval_iter = [], train_eval_iter = []\<rparr>]
      ([], 0, Accuracy)
    = Inr ([(0, 3, None, None), (1, 5, None, None)], ([], 5, Accuracy))
   \<and> (5::real) \<noteq> 0.99 * 3 + 0.01 * 5"
  by (simp add: train_batch_def reshape_rows_def as_in_context_def Sequential_init_def
      evaluate_accuracy_def Accuracy_get_def Accuracy_def asscalar_def nd_mean_def)

section \<open>The accuracy metric across calls\<close>

lemma plus_counts_Accuracy: "plus_counts Accuracy a = a"
  by (simp add: plus_counts_def Accuracy_def)

lemma plus_counts_assoc: "plus_counts (plus_counts m a) b = plus_counts m (plus_counts a b)"
  by (simp add: plus_counts_def)

lemma evaluate_batches_step:
  "evaluate_batches ctx net (b # rest) m =
     (case batch_counts ctx net b of
        Inl e \<Rightarrow> (Some e, m)
      | Inr c \<Rightarrow> evaluate_batches ctx net rest
                   (plus_counts m \<lparr>sum_metric = fst c, num_inst = snd c\<rparr>))"
  by (cases b)
     (simp add: batch_counts_def Accuracy_update_def as_in_context_def plus_counts_def Let_def
           split: sum.splits)

lemma call_error_Nil: "call_error ctx ([], net) = None"
  by (simp add: call_error_def)

lemma call_error_Cons:
  "call_error ctx (b # bs, net) =
     (case batch_counts ctx net b of Inl e \<Rightarrow> Some e | Inr c \<Rightarrow> call_error ctx (bs, net))"
  by (simp add: call_error_def split: sum.splits cong: list.case_cong)

lemma call_hits_Nil: "call_hits ctx ([], net) = 0"
  by (simp add: call_hits_def counted_batches_def)

lemma call_hits_Cons:
  "call_hits ctx (b # bs, net) =
     (case batch_counts ctx net b of Inl e \<Rightarrow> 0 | Inr c \<Rightarrow> fst c + call_hits ctx (bs, net))"
  by (simp add: call_hits_def counted_batches_def split: sum.splits)

lemma call_insts_Nil: "call_insts ctx ([], net) = 0"
  by (simp add: call_insts_def counted_batches_def)

lemma call_insts_Cons:
  "call_insts ctx (b # bs, net) =
     (case batch_counts ctx net b of Inl e \<Rightarrow> 0 | Inr c \<Rightarrow> snd c + call_insts ctx (bs, net))"
  by (simp add: call_insts_def counted_batches_def split: sum.splits)

lemma evaluate_batches_counts:
  "evaluate_batches ctx net bs m =
     (call_error ctx (bs, net),
      plus_counts m \<lparr>sum_metric = call_hits ctx (bs, net),
                      num_inst = call_insts ctx (bs, net)\<rparr>)"
proof (induction bs arbitrary: m)
  case Nil
  show ?case
    by (simp add: call_error_Nil call_hits_Nil call_insts_Nil plus_counts_def)
next
  case (Cons b bs)
  show ?case
  proof (cases "batch_counts ctx net b")
    case (Inl e)
    then show ?thesis
      by (simp add: evaluate_batches_step call_error_Cons call_hits_Cons call_insts_Cons
          plus_counts_def)
  next
    case (Inr c)
    with Cons.IH [of "plus_counts m \<lparr>sum_metric = fst c, num_inst = snd c\<rparr>"]
    show ?thesis
      by (simp add: evaluate_batches_step call_error_Cons call_hits_Cons call_insts_Cons
          plus_counts_def add.assoc)
  qed
qed

lemma evaluate_accuracy_counts:
  "evaluate_accuracy ctx bs net m =
     (case call_error ctx (bs, net) of
        Some e \<Rightarrow> Inl e
      | None \<Rightarrow> Inr (Accuracy_get (plus_counts m \<lparr>sum_metric = call_hits ctx (bs, net),
                                                  num_inst = call_insts ctx (bs, net)\<rparr>)),
      plus_counts m \<lparr>sum_metric = call_hits ctx (bs, net),
                      num_inst = call_insts ctx (bs, net)\<rparr>)"
  by (cases "call_error ctx (bs, net)") (simp_all add: evaluate_accuracy_def evaluate_batches_counts)

lemma evaluate_calls_counts:
  "length (fst (evaluate_calls ctx calls m)) = length calls \<and>
   snd (evaluate_calls ctx calls m) =
     plus_counts m \<lparr>sum_metric = sum_list (map (call_hits ctx) calls),
                     num_inst = sum_list (map (call_insts ctx) calls)\<rparr> \<and>
   (\<forall>k < length calls.
      fst (evaluate_calls ctx calls m) ! k =
        (case call_error ctx (calls ! k) of
           Some e \<Rightarrow> Inl e
         | None \<Rightarrow> Inr (Accuracy_get (plus_counts m
             \<lparr>sum_metric = sum_list (map (call_hits ctx) (take (Suc k) calls)),
              num_inst = sum_list (map (call_insts ctx) (take (Suc k) calls))\<rparr>))))"
proof (induction calls arbitrary: m)
  case Nil
  show ?case by (simp add: plus_counts_def)
next
  case (Cons call calls)
  obtain bs net where call: "call = (bs, net)" by (cases call)
  define m1 where "m1 = plus_counts m \<lparr>sum_metric = call_hits ctx (bs, net),
                                        num_inst = call_insts ctx (bs, net)\<rparr>"
  define v where "v = (case call_error ctx (bs, net) of
        Some e \<Rightarrow> Inl e | None \<Rightarrow> Inr (Accuracy_get m1))"
  have first: "evaluate_accuracy ctx bs net m = (v, m1)"
    by (simp add: evaluate_accuracy_counts v_def m1_def split: option.splits)
  obtain vs m2 where rest: "evaluate_calls ctx calls m1 = (vs, m2)"
    by (cases "evaluate_calls ctx calls m1")
  from first rest call
  have all: "evaluate_calls ctx (call # calls) m = (v # vs, m2)" by simp
  from all have vals: "fst (evaluate_calls ctx (call # calls) m) = v # vs"
    by (simp only: fst_conv)
  note ih = Cons.IH [of m1, unfolded rest fst_conv snd_conv]
  have len: "length (fst (evaluate_calls ctx (call # calls) m)) = length (call # calls)"
    using all ih by simp
  have fin: "snd (evaluate_calls ctx (call # calls) m) =
     plus_counts m \<lparr>sum_metric = sum_list (map (call_hits ctx) (call # calls)),
                     num_inst = sum_list (map (call_insts ctx) (call # calls))\<rparr>"
    using all ih call by (simp add: m1_def plus_counts_def add.assoc)
  have "fst (evaluate_calls ctx (call # calls) m) ! k =
        (case call_error ctx ((call # calls) ! k) of
           Some e \<Rightarrow> Inl e
         | None \<Rightarrow> Inr (Accuracy_get (plus_counts m
             \<lparr>sum_metric = sum_list (map (call_hits ctx) (take (Suc k) (call # calls))),
              num_inst = sum_list (map (call_insts ctx) (take (Suc k) (call # calls)))\<rparr>)))"
    if k: "k < length (call # calls)" for k
  proof (cases k)
    case 0
    with call show ?thesis
      unfolding vals by (simp add: v_def m1_def split: option.splits)
  next
    case (Suc j)
    with k have "j < length calls" by simp
    from ih [THEN conjunct2, THEN conjunct2, rule_format, OF this]
    have "vs ! j = (case call_error ctx (calls ! j) of
           Some e \<Rightarrow> Inl e
         | None \<Rightarrow> Inr (Accuracy_get (plus_counts m1
             \<lparr>sum_metric = sum_list (map (call_hits ctx) (take (Suc j) calls)),
              num_inst = sum_list (map (call_insts ctx) (take (Suc j) calls))\<rparr>)))" .
    with Suc call show ?thesis
      unfolding vals by (simp add: m1_def plus_counts_def add.assoc split: option.splits)
  qed
  with len fin show ?case by blast
qed

lemma call_error_None:
  "call_error ctx call = None \<longleftrightarrow> (\<forall>b \<in> set (fst call). \<not> isl (batch_counts ctx (snd call) b))"
proof
  assume none: "call_error ctx call = None"
  show "\<forall>b \<in> set (fst call). \<not> isl (batch_counts ctx (snd call) b)"
  proof (cases "dropWhile (\<lambda>b. \<not> isl (batch_counts ctx (snd call) b)) (fst call)")
    case Nil
    then show ?thesis by simp
  next
    case (Cons b rest)
    from hd_dropWhile [of "\<lambda>b. \<not> isl (batch_counts ctx (snd call) b)" "fst call"] Cons
    have "isl (batch_counts ctx (snd call) b)" by simp
    with none Cons show ?thesis
      by (simp add: call_error_def isl_def split: sum.splits) 
  qed
next
  assume "\<forall>b \<in> set (fst call). \<not> isl (batch_counts ctx (snd call) b)"
  then have dw: "dropWhile (\<lambda>b. \<not> isl (batch_counts ctx (snd call) b)) (fst call) = []"
    by simp
  show "call_error ctx call = None" unfolding call_error_def dw by simp
qed

lemma counted_batches_all:
  "call_error ctx call = None \<Longrightarrow> counted_batches ctx call = fst call"
  by (simp add: call_error_None counted_batches_def)

lemma evaluate_accuracy_depends_on_metric:
  "fst (evaluate_accuracy (cpu 0)
      [(\<lparr>nd_shape = [1, 784], nd_data = replicate 784 0, nd_context = cpu 0\<rparr>,
          \<lparr>nd_shape = [1], nd_data = [1], nd_context = cpu 0\<rparr>)]
      (\<lambda>x. Inr \<lparr>nd_shape = [1, 2], nd_data = [0, 1], nd_context = cpu 0\<rparr>)
      Accuracy)
     = Inr (Some 1)
   \<and> fst (evaluate_accuracy (cpu 0)
      [(\<lparr>nd_shape = [1, 784], nd_data = replicate 784 0, nd_context = cpu 0\<rparr>,
          \<lparr>nd_shape = [1], nd_data = [1], nd_context = cpu 0\<rparr>)]
      (\<lambda>x. Inr \<lparr>nd_shape = [1, 2], nd_data = [0, 1], nd_context = cpu 0\<rparr>)
      \<lparr>sum_metric = 0, num_inst = 1\<rparr>)
     = Inr (Some (1 / 2))"
  by code_simp

text \<open>
  Claim C10. The metric is one object that \<open>evaluate_accuracy\<close> updates and never
  resets. In every sequence of calls starting from the fresh metric, each call returns
  or raises; the k-th call raises exactly when one of its batches raises, and the value
  it returns otherwise is the accuracy over the batches counted in the calls 1 to k
  combined: all hits over all instances, where a call counts every batch of its iterator
  before the first one that raises (all of them when none raises), also in a call that
  raises. The value a call returns is not determined by its arguments.
\<close>

theorem evaluate_accuracy_accumulates:
  "length (fst (evaluate_calls ctx calls Accuracy)) = length calls
   \<and> (\<forall>k < length calls.
        fst (evaluate_calls ctx calls Accuracy) ! k =
          (case call_error ctx (calls ! k) of
             Some e \<Rightarrow> Inl e
           | None \<Rightarrow> Inr (accumulated_accuracy ctx (take (Suc k) calls))))
   \<and> snd (evaluate_calls ctx calls Accuracy) =
        \<lparr>sum_metric = sum_list (map (call_hits ctx) calls),
         num_inst = sum_list (map (call_insts ctx) calls)\<rparr>
   \<and> (\<forall>call. (call_error ctx call = None) =
               (\<forall>b \<in> set (fst call). \<not> isl (batch_counts ctx (snd call) b)))
   \<and> (\<forall>call. call_error ctx call = None \<longrightarrow> counted_batches ctx call = fst call)
   \<and> \<not> (\<forall>c bs net m1 m2.
          fst (evaluate_accuracy c bs net m1) = fst (evaluate_accuracy c bs net m2))"
proof -
  note counts = evaluate_calls_counts [of ctx calls Accuracy]
  have get: "Accuracy_get (plus_counts Accuracy
             \<lparr>sum_metric = sum_list (map (call_hits ctx) cs),
              num_inst = sum_list (map (call_insts ctx) cs)\<rparr>) = accumulated_accuracy ctx cs"
    for cs
    by (simp add: plus_counts_Accuracy Accuracy_get_def accumulated_accuracy_def)
  from counts have len: "length (fst (evaluate_calls ctx calls Accuracy)) = length calls"
    by blast
  from counts have vals: "\<forall>k < length calls.
        fst (evaluate_calls ctx calls Accuracy) ! k =
          (case call_error ctx (calls ! k) of
             Some e \<Rightarrow> Inl e
           | None \<Rightarrow> Inr (accumulated_accuracy ctx (take (Suc k) calls)))"
    by (simp only: get) blast
  from counts have fin: "snd (evaluate_calls ctx calls Accuracy) =
        \<lparr>sum_metric = sum_list (map (call_hits ctx) calls),
         num_inst = sum_list (map (call_insts ctx) calls)\<rparr>"
    by (simp add: plus_counts_Accuracy)
  have dep: "\<not> (\<forall>c bs net m1 m2.
          fst (evaluate_accuracy c bs net m1) = fst (evaluate_accuracy c bs net m2))"
  proof
    assume "\<forall>c bs net m1 m2.
          fst (evaluate_accuracy c bs net m1) = fst (evaluate_accuracy c bs net m2)"
    with evaluate_accuracy_depends_on_metric
    have "(Inr (Some 1) :: error + real option) = Inr (Some (1 / 2))"
      by metis
    then show False by simp
  qed
  from len vals fin dep call_error_None counted_batches_all show ?thesis by blast
qed

theorem evaluate_accuracy_accumulates_witness:
  "evaluate_calls (cpu 0)
      [([(\<lparr>nd_shape = [1, 784], nd_data = replicate 784 0, nd_context = cpu 0\<rparr>,
          \<lparr>nd_shape = [1], nd_data = [0], nd_context = cpu 0\<rparr>),
         (\<lparr>nd_shape = [1, 784], nd_data = replicate 784 0, nd_context = cpu 0\<rparr>,
          \<lparr>nd_shape = [1], nd_data = [1], nd_context = cpu 0\<rparr>)],
        (\<lambda>x. Inr \<lparr>nd_shape = [1, 2], nd_data = [0, 1], nd_context = cpu 0\<rparr>)),
       ([(\<lparr>nd_shape = [1, 784], nd_data = replicate 784 0, nd_context = cpu 0\<rparr>,
          \<lparr>nd_shape = [1], nd_data = [1], nd_context = cpu 0\<rparr>),
         (\<lparr>nd_shape = [1, 784], nd_data = replicate 784 0, nd_context = cpu 0\<rparr>,
          \<lparr>nd_shape = [1], nd_data = [1], nd_context = cpu 0\<rparr>)],
        (\<lambda>x. Inr \<lparr>nd_shape = [1, 2], nd_data = [0, 1], nd_context = cpu 0\<rparr>)),
       ([(\<lparr>nd_shape = [1, 784], nd_data = replicate 784 0, nd_context = cpu 0\<rparr>,
          \<lparr>nd_shape = [1], nd_data = [1], nd_context = cpu 0\<rparr>),
         (\<lparr>nd_shape = [1, 100], nd_data = replicate 100 0, nd_context = cpu 0\<rparr>,
          \<lparr>nd_shape = [1], nd_data = [1], nd_context = cpu 0\<rparr>)],
        (\<lambda>x. Inr \<lparr>nd_shape = [1, 2], nd_data = [0, 1], nd_context = cpu 0\<rparr>)),
       ([(\<lparr>nd_shape = [1, 784], nd_data = replicate 784 0, nd_context = cpu 0\<rparr>,
          \<lparr>nd_shape = [1], nd_data = [0], nd_context = cpu 0\<rparr>)],
        (\<lambda>x. Inr \<lparr>nd_shape = [1, 2], nd_data = [0, 1], nd_context = cpu 0\<rparr>))]
      Accuracy
    = ([Inr (Some (1 / 2)), Inr (Some (3 / 4)), Inl ShapeMismatchError, Inr (Some (2 / 3))],
       \<lparr>sum_metric = 4, num_inst = 6\<rparr>)
   \<and> accumulated_accuracy (cpu 0)
      [([(\<lparr>nd_shape = [1, 784], nd_data = replicate 784 0, nd_context = cpu 0\<rparr>,
          \<lparr>nd_shape = [1], nd_data = [0], nd_context = cpu 0\<rparr>),
         (\<lparr>nd_shape = [1, 784], nd_data = replicate 784 0, nd_context = cpu 0\<rparr>,
          \<lparr>nd_shape = [1], nd_data = [1], nd_context = cpu 0\<rparr>)],
        (\<lambda>x. Inr \<lparr>nd_shape = [1, 2], nd_data = [0, 1], nd_context = cpu 0\<rparr>)),
       ([(\<lparr>nd_shape = [1, 784], nd_data = replicate 784 0, nd_context = cpu 0\<rparr>,
          \<lparr>nd_shape = [1], nd_data = [1], nd_context = cpu 0\<rparr>),
         (\<lparr>nd_shape = [1, 784], nd_data = replicate 784 0, nd_context = cpu 0\<rparr>,
          \<lparr>nd_shape = [1], nd_data = [1], nd_context = cpu 0\<rparr>)],
        (\<lambda>x. Inr \<lparr>nd_shape = [1, 2], nd_data = [0, 1], nd_context = cpu 0\<rparr>)),
       ([(\<lparr>nd_shape = [1, 784], nd_data = replicate 784 0, nd_context = cpu 0\<rparr>,
          \<lparr>nd_shape = [1], nd_data = [1], nd_context = cpu 0\<rparr>),
         (\<lparr>nd_shape = [1, 100], nd_data = replicate 100 0, nd_context = cpu 0\<rparr>,
          \<lparr>nd_shape = [1], nd_data = [1], nd_context = cpu 0\<rparr>)],
        (\<lambda>x. Inr \<lparr>nd_shape = [1, 2], nd_data = [0, 1], nd_context = cpu 0\<rparr>)),
       ([(\<lparr>nd_shape = [1, 784], nd_data = replicate 784 0, nd_context = cpu 0\<rparr>,
          \<lparr>nd_shape = [1], nd_data = [0], nd_context = cpu 0\<rparr>)],
        (\<lambda>x. Inr \<lparr>nd_shape = [1, 2], nd_data = [0, 1], nd_context = cpu 0\<rparr>))]
    = Some (2 / 3)
   \<and> map (call_insts (cpu 0))
      [([(\<lparr>nd_shape = [1, 784], nd_data = replicate 784 0, nd_context = cpu 0\<rparr>,
          \<lparr>nd_shape = [1], nd_data = [0], nd_context = cpu 0\<rparr>),
         (\<lparr>nd_shape = [1, 784], nd_data = replicate 784 0, nd_context = cpu 0\<rparr>,
          \<lparr>nd_shape = [1], nd_data = [1], nd_context = cpu 0\<rparr>)],
        (\<lambda>x. Inr \<lparr>nd_shape = [1, 2], nd_data = [0, 1], nd_context = cpu 0\<rparr>)),
       ([(\<lparr>nd_shape = [1, 784], nd_data = replicate 784 0, nd_context = cpu 0\<rparr>,
          \<lparr>nd_shape = [1], nd_data = [1], nd_context = cpu 0\<rparr>),
         (\<lparr>nd_shape = [1, 784], nd_data = replicate 784 0, nd_context = cpu 0\<rparr>,
          \<lparr>nd_shape = [1], nd_data = [1], nd_context = cpu 0\<rparr>)],
        (\<lambda>x. Inr \<lparr>nd_shape = [1, 2], nd_data = [0, 1], nd_context = cpu 0\<rparr>)),
       ([(\<lparr>nd_shape = [1, 784], nd_data = replicate 784 0, nd_context = cpu 0\<rparr>,
          \<lparr>nd_shape = [1], nd_data = [1], nd_context = cpu 0\<rparr>),
         (\<lparr>nd_shape = [1, 100], nd_data = replicate 100 0, nd_context = cpu 0\<rparr>,
          \<lparr>nd_shape = [1], nd_data = [1], nd_context = cpu 0\<rparr>)],
        (\<lambda>x. Inr \<lparr>nd_shape = [1, 2], nd_data = [0, 1], nd_context = cpu 0\<rparr>)),
       ([(\<lparr>nd_shape = [1, 784], nd_data = replicate 784 0, nd_context = cpu 0\<rparr>,
          \<lparr>nd_shape = [1], nd_data = [0], nd_context = cpu 0\<rparr>)],
        (\<lambda>x. Inr \<lparr>nd_shape = [1, 2], nd_data = [0, 1], nd_context = cpu 0\<rparr>))]
    = [2, 2, 1, 1]"
proof -
  let ?calls = "[([(\<lparr>nd_shape = [1, 784], nd_data = replicate 784 0, nd_context = cpu 0\<rparr>,
          \<lparr>nd_shape = [1], nd_data = [0], nd_context = cpu 0\<rparr>),
         (\<lparr>nd_shape = [1, 784], nd_data = replicate 784 0, nd_context = cpu 0\<rparr>,
          \<lparr>nd_shape = [1], nd_data = [1], nd_context = cpu 0\<rparr>)],
        (\<lambda>x. Inr \<lparr>nd_shape = [1, 2], nd_data = [0, 1], nd_context = cpu 0\<rparr>)),
       ([(\<lparr>nd_shape = [1, 784], nd_data = replicate 784 0, nd_context = cpu 0\<rparr>,
          \<lparr>nd_shape = [1], nd_data = [1], nd_context = cpu 0\<rparr>),
         (\<lparr>nd_shape = [1, 784], nd_data = replicate 784 0, nd_context = cpu 0\<rparr>,
          \<lparr>nd_shape = [1], nd_data = [1], nd_context = cpu 0\<rparr>)],
        (\<lambda>x. Inr \<lparr>nd_shape = [1, 2], nd_data = [0, 1], nd_context = cpu 0\<rparr>)),
       ([(\<lparr>nd_shape = [1, 784], nd_data = replicate 784 0, nd_context = cpu 0\<rparr>,
          \<lparr>nd_shape = [1], nd_data = [1], nd_context = cpu 0\<rparr>),
         (\<lparr>nd_shape = [1, 100], nd_data = replicate 100 0, nd_context = cpu 0\<rparr>,
          \<lparr>nd_shape = [1], nd_data = [1], nd_context = cpu 0\<rparr>)],
        (\<lambda>x. Inr \<lparr>nd_shape = [1, 2], nd_data = [0, 1], nd_context = cpu 0\<rparr>)),
       ([(\<lparr>nd_shape = [1, 784], nd_data = replicate 784 0, nd_context = cpu 0\<rparr>,
          \<lparr>nd_shape = [1], nd_data = [0], nd_context = cpu 0\<rparr>)],
        (\<lambda>x. Inr \<lparr>nd_shape = [1, 2], nd_data = [0, 1], nd_context = cpu 0\<rparr>))]"
  have run: "evaluate_calls (cpu 0) ?calls Accuracy
    = ([Inr (Some (1 / 2)), Inr (Some (3 / 4)), Inl ShapeMismatchError, Inr (Some (2 / 3))],
       \<lparr>sum_metric = 4, num_inst = 6\<rparr>)"
    by code_simp
  have insts: "map (call_insts (cpu 0)) ?calls = [2, 2, 1, 1]"
    by code_simp
  have err: "call_error (cpu 0) (?calls ! 3) = None"
    by code_simp
  have "(3::nat) < length ?calls" by simp
  from evaluate_accuracy_accumulates [of "cpu 0" ?calls, THEN conjunct2, THEN conjunct1,
      rule_format, OF this]
  have "accumulated_accuracy (cpu 0) ?calls = Some (2 / 3)"
    unfolding run err by simp
  with run insts show ?thesis by simp
qed

end
